theory Spec2Isabelle
  imports Main "HOL-Library.Sublist" "HOL-Library.Multiset"
begin

section \<open>Python string operations used by bootstrapper.py\<close>

text \<open>
  Strings are lists of 8-bit characters, the bytes of the text. Python's \<open>str.lower\<close>
  follows the Unicode case tables, which are not part of the program: it is a parameter of
  the environment (\<open>str_lower\<close> below). \<open>ascii_lower\<close> is what it does on ASCII text: the
  letters A to Z move to a to z, every other character stays.
\<close>

definition lower_char :: "char \<Rightarrow> char" where
  "lower_char c =
     (case map_of (zip ''ABCDEFGHIJKLMNOPQRSTUVWXYZ'' ''abcdefghijklmnopqrstuvwxyz'') c of
        Some l \<Rightarrow> l
      | None \<Rightarrow> c)"

definition ascii_lower :: "string \<Rightarrow> string" where
  "ascii_lower s = map lower_char s"

text \<open>\<open>str_int\<close> is the text an f-string produces for an \<open>int\<close>: decimal, with a minus sign.\<close>

definition digit_char :: "nat \<Rightarrow> char" where
  "digit_char d = ''0123456789'' ! d"

fun str_nat :: "nat \<Rightarrow> string" where
  "str_nat n = (if n < 10 then [digit_char n] else str_nat (n div 10) @ [digit_char (n mod 10)])"

declare str_nat.simps [simp del]

definition str_int :: "int \<Rightarrow> string" where
  "str_int i = (if i < 0 then CHR ''-'' # str_nat (nat (- i)) else str_nat (nat i))"

text \<open>\<open>s.endswith(suf)\<close>, and the slice \<open>s[:-4]\<close> (empty when \<open>s\<close> has fewer than 4 characters).\<close>

definition endswith :: "string \<Rightarrow> string \<Rightarrow> bool" where
  "endswith s suf = suffix suf s"

definition drop_last4 :: "string \<Rightarrow> string" where
  "drop_last4 s = take (length s - 4) s"

text \<open>\<open>os.path.basename\<close> (posixpath): everything after the last slash.\<close>

definition basename :: "string \<Rightarrow> string" where
  "basename p = rev (takeWhile (\<lambda>c. c \<noteq> CHR ''/'') (rev p))"

text \<open>
  The directories on the way to the last component of a path, outermost first: every prefix
  of the path that ends before a slash (before the first of a run of slashes). The root
  itself, a leading run of slashes, is not among them.
\<close>

fun dir_prefixes_aux :: "string \<Rightarrow> string \<Rightarrow> string list" where
  "dir_prefixes_aux seen [] = []"
| "dir_prefixes_aux seen (c # cs) =
     (if c = CHR ''/'' \<and> seen \<noteq> [] \<and> hd seen \<noteq> CHR ''/''
      then rev seen # dir_prefixes_aux (c # seen) cs
      else dir_prefixes_aux (c # seen) cs)"

definition dir_prefixes :: "string \<Rightarrow> string list" where
  "dir_prefixes p = dir_prefixes_aux [] p"

text \<open>
  \<open>str.replace(old, new)\<close>: scanning from the left, every non-overlapping occurrence of
  \<open>old\<close> is replaced by \<open>new\<close>; with an empty \<open>old\<close>, \<open>new\<close> is inserted before every
  character and at the end.
\<close>

function replace :: "string \<Rightarrow> string \<Rightarrow> string \<Rightarrow> string" where
  "replace old new [] = (if old = [] then new else [])"
| "replace old new (c # cs) =
     (if old = [] then new @ c # replace old new cs
      else if prefix old (c # cs) then new @ replace old new (drop (length old) (c # cs))
      else c # replace old new cs)"
  by pat_completeness auto
termination
  by (relation "measure (\<lambda>(old, new, s). length s)") (auto simp: Suc_diff_le)

declare replace.simps [simp del]

section \<open>The world the program runs in\<close>

text \<open>
  The file system maps a path to a regular file with its content or to a directory. Paths
  are compared as written: no symbolic links, no permissions, no normalisation. A file holds
  the text the program reads from it and writes to it; the newline translation of text mode
  is not modelled.
\<close>

datatype node = File string | Dir

type_synonym filesystem = "string \<rightharpoonup> node"

datatype response = Response int string | ConnectionFailed

text \<open>
  Exceptions that leave a function. \<open>SystemExit n\<close> is what \<open>exit(n)\<close> raises.
\<close>

datatype exn =
    SystemExit int
  | FileNotFoundError
  | IsADirectoryError
  | NotADirectoryError
  | FileExistsError
  | UnpicklingError
  | TOMLDecodeError
  | KeyError string
  | IndexError
  | RequestsConnectionError

record world =
  fs :: filesystem
  stdout :: "string list"
  stderr :: "string list"
  requests_sent :: "(string \<times> string) list"
  browser_tabs :: "string list"

definition print_out :: "world \<Rightarrow> string \<Rightarrow> world" where
  "print_out w s = w\<lparr>stdout := stdout w @ [s]\<rparr>"

definition print_err :: "world \<Rightarrow> string \<Rightarrow> world" where
  "print_err w s = w\<lparr>stderr := stderr w @ [s]\<rparr>"

text \<open>
  Path resolution, as the operating system does it for \<open>open\<close>, \<open>stat\<close> and \<open>mkdir\<close>:
  every directory on the way must exist and be a directory. The root and the working
  directory always exist.
\<close>

fun check_dirs :: "filesystem \<Rightarrow> string list \<Rightarrow> exn option" where
  "check_dirs f [] = None"
| "check_dirs f (d # ds) =
     (case f d of
        None \<Rightarrow> Some FileNotFoundError
      | Some (File _) \<Rightarrow> Some NotADirectoryError
      | Some Dir \<Rightarrow> check_dirs f ds)"

definition resolve :: "filesystem \<Rightarrow> string \<Rightarrow> exn + node" where
  "resolve f p =
     (if p = [] then Inl FileNotFoundError
      else (case check_dirs f (dir_prefixes p) of
              Some e \<Rightarrow> Inl e
            | None \<Rightarrow> (case f p of None \<Rightarrow> Inl FileNotFoundError | Some n \<Rightarrow> Inr n)))"

text \<open>\<open>os.path.exists\<close> and \<open>os.path.isdir\<close>: false whenever the path does not resolve.\<close>

definition path_exists :: "filesystem \<Rightarrow> string \<Rightarrow> bool" where
  "path_exists f p = (case resolve f p of Inl _ \<Rightarrow> False | Inr _ \<Rightarrow> True)"

definition path_isdir :: "filesystem \<Rightarrow> string \<Rightarrow> bool" where
  "path_isdir f p = (resolve f p = Inr Dir)"

definition open_read :: "filesystem \<Rightarrow> string \<Rightarrow> exn + string" where
  "open_read f p =
     (case resolve f p of
        Inl e \<Rightarrow> Inl e
      | Inr Dir \<Rightarrow> Inl IsADirectoryError
      | Inr (File c) \<Rightarrow> Inr c)"

text \<open>\<open>open(p, "w")\<close> followed by one \<open>write\<close>: the file is created or replaced.\<close>

definition open_write :: "filesystem \<Rightarrow> string \<Rightarrow> string \<Rightarrow> exn + filesystem" where
  "open_write f p content =
     (if p = [] then Inl FileNotFoundError
      else (case check_dirs f (dir_prefixes p) of
              Some e \<Rightarrow> Inl e
            | None \<Rightarrow>
                if basename p = [] \<or> f p = Some Dir then Inl IsADirectoryError
                else Inr (f(p \<mapsto> File content))))"

definition mkdir :: "filesystem \<Rightarrow> string \<Rightarrow> exn + filesystem" where
  "mkdir f p =
     (if p = [] then Inl FileNotFoundError
      else (case check_dirs f (dir_prefixes p) of
              Some e \<Rightarrow> Inl e
            | None \<Rightarrow> if f p \<noteq> None then Inl FileExistsError else Inr (f(p \<mapsto> Dir))))"

section \<open>Constants and command-line arguments\<close>

definition AOC_ENDPOINT :: string where
  "AOC_ENDPOINT = ''https://www.adventofcode.com''"

definition SAVED_TEMPLATES_FILE_PATH :: string where
  "SAVED_TEMPLATES_FILE_PATH = ''data/templates.pkl''"

definition CONFIG_FILE_PATH :: string where
  "CONFIG_FILE_PATH = ''resources/config.toml''"

text \<open>The values of the enumeration \<open>BoostrapperError\<close>.\<close>

datatype BoostrapperError = TEMPLATE_NOT_FOUND | BAD_AOC_REQUEST | INVALID_TEMPLATE_PATH

fun error_value :: "BoostrapperError \<Rightarrow> int" where
  "error_value TEMPLATE_NOT_FOUND = 1"
| "error_value BAD_AOC_REQUEST = 2"
| "error_value INVALID_TEMPLATE_PATH = 3"

record generate_args =
  day :: int
  language :: string
  target_dir :: string
  year :: int

record add_args =
  add_language :: string
  template_file :: string

text \<open>
  What the program takes from outside: the remote server (a response for a URL and a session
  cookie), \<open>str.lower\<close>, the TOML and pickle codecs, the argument parsers built in
  \<open>main\<close>, and the current year.
\<close>

record ext =
  str_lower :: "string \<Rightarrow> string"
  http_get :: "string \<Rightarrow> string \<Rightarrow> response"
  toml_load :: "string \<Rightarrow> (string \<rightharpoonup> string) option"
  pickle_load :: "string \<Rightarrow> (string \<rightharpoonup> string) option"
  pickle_dump :: "(string \<rightharpoonup> string) \<Rightarrow> string"
  parse_generate :: "int \<Rightarrow> string list \<Rightarrow> world \<Rightarrow> (exn + generate_args) \<times> world"
  parse_add :: "string list \<Rightarrow> world \<Rightarrow> (exn + add_args) \<times> world"
  now_year :: int

section \<open>The functions of bootstrapper.py\<close>

text \<open>
  The global \<open>config\<close> is passed explicitly. Every function takes the world and returns its
  result (or the exception that left it) with the world it leaves behind.
\<close>

definition request_url :: "int \<Rightarrow> int \<Rightarrow> string" where
  "request_url d y = AOC_ENDPOINT @ ''/'' @ str_int y @ ''/day/'' @ str_int d @ ''/input''"

definition bad_request_message :: "int \<Rightarrow> string \<Rightarrow> string" where
  "bad_request_message status url =
     ''Error '' @ str_int status @ '' while fetching '' @ url @
     ''. Maybe your day or year is invalid, or maybe your session cookie is incorrect or has expired.''"

definition get_challenge_input ::
  "ext \<Rightarrow> (string \<rightharpoonup> string) \<Rightarrow> int \<Rightarrow> int \<Rightarrow> world \<Rightarrow> (exn + string) \<times> world" where
  "get_challenge_input x config d y w =
     (let w1 = print_out w ''Downloading challenge input...'' in
      case config ''session_cookie'' of
        None \<Rightarrow> (Inl (KeyError ''session_cookie''), w1)
      | Some session_cookie \<Rightarrow>
          (let url = request_url d y;
               w2 = w1\<lparr>requests_sent := requests_sent w1 @ [(url, session_cookie)]\<rparr> in
           case http_get x url session_cookie of
             ConnectionFailed \<Rightarrow> (Inl RequestsConnectionError, w2)
           | Response status_code body \<Rightarrow>
               if status_code \<noteq> 200
               then (Inl (SystemExit (error_value BAD_AOC_REQUEST)),
                     print_err w2 (bad_request_message status_code url))
               else (Inr body, w2)))"

definition challenge_input_file_path :: "string \<Rightarrow> int \<Rightarrow> int \<Rightarrow> string" where
  "challenge_input_file_path inputs_dir_path d y =
     inputs_dir_path @ ''/'' @ str_int y @ ''/day'' @ str_int d @ ''.txt''"

definition create_input_file ::
  "ext \<Rightarrow> (string \<rightharpoonup> string) \<Rightarrow> int \<Rightarrow> int \<Rightarrow> world \<Rightarrow> (exn + unit) \<times> world" where
  "create_input_file x config d y w =
     (let w1 = print_out w ''Creating input file...'' in
      case config ''challenge_input_directory'' of
        None \<Rightarrow> (Inl (KeyError ''challenge_input_directory''), w1)
      | Some inputs_dir_path \<Rightarrow>
          (let path = challenge_input_file_path inputs_dir_path d y in
           case get_challenge_input x config d y w1 of
             (Inl e, w2) \<Rightarrow> (Inl e, w2)
           | (Inr challenge_input, w2) \<Rightarrow>
               if path_exists (fs w2) path
               then (Inr (), print_out w2 (path @ '' already exists, skipping''))
               else
                 (let inputs_for_year_dir_path = inputs_dir_path @ ''/'' @ str_int y in
                  case (if \<not> path_isdir (fs w2) inputs_for_year_dir_path
                        then mkdir (fs w2) inputs_for_year_dir_path
                        else Inr (fs w2)) of
                    Inl e \<Rightarrow> (Inl e, w2)
                  | Inr f3 \<Rightarrow>
                      (case open_write f3 path challenge_input of
                         Inl e \<Rightarrow> (Inl e, w2\<lparr>fs := f3\<rparr>)
                       | Inr f4 \<Rightarrow> (Inr (), w2\<lparr>fs := f4\<rparr>)))))"

text \<open>
  The placeholder for a variable name, and the loop over \<open>template_vars\<close>: a dictionary
  iterates in insertion order, so the variables are a list of distinct keys with their values
  as formatted text.
\<close>

definition token :: "string \<Rightarrow> string" where
  "token template_var = ''[['' @ template_var @ '']]''"

fun substitute :: "(string \<times> string) list \<Rightarrow> string \<Rightarrow> string" where
  "substitute [] template_content = template_content"
| "substitute ((template_var, v) # vars) template_content =
     substitute vars (replace (token template_var) v template_content)"

definition starter_code_file_path :: "string \<Rightarrow> string \<Rightarrow> string" where
  "starter_code_file_path template_file_path tdir =
     (if endswith template_file_path ''.tpl''
      then drop_last4 (tdir @ ''/'' @ basename template_file_path)
      else tdir @ ''/'' @ basename template_file_path)"

definition generate_starter_code ::
  "string \<Rightarrow> string \<Rightarrow> (string \<times> string) list \<Rightarrow> world \<Rightarrow> (exn + string) \<times> world" where
  "generate_starter_code template_file_path tdir template_vars w =
     (case open_read (fs w) template_file_path of
        Inl e \<Rightarrow> (Inl e, w)
      | Inr template_content \<Rightarrow>
          (let w1 = print_out w ''Parsing template...'';
               content = substitute template_vars template_content;
               w2 = print_out w1 ''Generating starter code...'';
               out = starter_code_file_path template_file_path tdir in
           case open_write (fs w2) out content of
             Inl e \<Rightarrow> (Inl e, w2)
           | Inr f' \<Rightarrow> (Inr out, w2\<lparr>fs := f'\<rparr>)))"

definition challenge_vars :: "generate_args \<Rightarrow> (string \<times> string) list" where
  "challenge_vars args =
     [(''CHALLENGE_DAY'', str_int (day args)), (''CHALLENGE_YEAR'', str_int (year args))]"

definition generate_challenge ::
  "ext \<Rightarrow> (string \<rightharpoonup> string) \<Rightarrow> (string \<rightharpoonup> string) \<Rightarrow> generate_args \<Rightarrow> world
     \<Rightarrow> (exn + unit) \<times> world" where
  "generate_challenge x config saved_templates args w =
     (case saved_templates (str_lower x (language args)) of
        None \<Rightarrow>
          (Inl (SystemExit (error_value TEMPLATE_NOT_FOUND)),
           print_err w (''Error: The language '' @ language args @
             '' does not have a valid template. Add one with 'bootstrapper add'' @ [CHR 0x27]))
      | Some template_path \<Rightarrow>
          (let w1 = print_out w (''Generating '' @ language args @ '' starter code for '' @
                      str_int (year args) @ '' day '' @ str_int (day args) @ '' challenge'') in
           case create_input_file x config (day args) (year args) w1 of
             (Inl e, w2) \<Rightarrow> (Inl e, w2)
           | (Inr _, w2) \<Rightarrow>
               (case generate_starter_code template_path (target_dir args) (challenge_vars args) w2 of
                  (Inl e, w3) \<Rightarrow> (Inl e, w3)
                | (Inr out, w3) \<Rightarrow>
                    (let w4 = print_out w3 ''Done!'';
                         w5 = w4\<lparr>browser_tabs := browser_tabs w4 @
                                [''https://adventofcode.com/'' @ str_int (year args) @ ''/day/'' @
                                 str_int (day args)]\<rparr>;
                         w6 = print_out w5 (''Your starter code file is located at '' @ out @
                                ''. The challenge page has been opened in your browser. Good luck!'')
                     in (Inr (), w6)))))"

definition load_saved_templates :: "ext \<Rightarrow> world \<Rightarrow> exn + (string \<rightharpoonup> string)" where
  "load_saved_templates x w =
     (case open_read (fs w) SAVED_TEMPLATES_FILE_PATH of
        Inl e \<Rightarrow> (if e = FileNotFoundError then Inr Map.empty else Inl e)
      | Inr blob \<Rightarrow>
          (case pickle_load x blob of
             None \<Rightarrow> Inl UnpicklingError
           | Some saved_templates \<Rightarrow> Inr saved_templates))"

text \<open>
  \<open>add_template\<close> changes the dictionary it is given in place, so it returns the dictionary
  too. Its error message is printed with \<open>stderr\<close> as a second value to print, so it goes
  to the standard output, followed by the text of the stream object.
\<close>

definition stderr_repr :: string where
  "stderr_repr = ''<_io.TextIOWrapper name='<stderr>' mode='w' encoding='utf-8'>''"

definition add_template ::
  "ext \<Rightarrow> (string \<rightharpoonup> string) \<Rightarrow> add_args \<Rightarrow> world
     \<Rightarrow> (exn + unit) \<times> (string \<rightharpoonup> string) \<times> world" where
  "add_template x saved_templates args w =
     (if \<not> path_exists (fs w) (template_file args)
      then (Inl (SystemExit (error_value INVALID_TEMPLATE_PATH)), saved_templates,
            print_out w (''Not a valid path: '' @ template_file args @ '' '' @ stderr_repr))
      else
        (let saved_templates' =
               saved_templates(str_lower x (add_language args) \<mapsto> template_file args) in
         case open_write (fs w) SAVED_TEMPLATES_FILE_PATH (pickle_dump x saved_templates') of
           Inl e \<Rightarrow> (Inl e, saved_templates', w)
         | Inr f' \<Rightarrow>
             (Inr (), saved_templates', print_out (w\<lparr>fs := f'\<rparr>) ''Template added successfully.'')))"

definition load_config :: "ext \<Rightarrow> world \<Rightarrow> exn + (string \<rightharpoonup> string)" where
  "load_config x w =
     (case open_read (fs w) CONFIG_FILE_PATH of
        Inl e \<Rightarrow> Inl e
      | Inr text \<Rightarrow>
          (case toml_load x text of
             None \<Rightarrow> Inl TOMLDecodeError
           | Some config \<Rightarrow> Inr config))"

definition main :: "ext \<Rightarrow> string list \<Rightarrow> world \<Rightarrow> (exn + unit) \<times> world" where
  "main x argv w =
     (case load_config x w of
        Inl e \<Rightarrow> (Inl e, w)
      | Inr config \<Rightarrow>
          (case argv of
             [] \<Rightarrow> (Inl IndexError, w)
           | [_] \<Rightarrow> (Inl IndexError, w)
           | _ # prog_mode # rest \<Rightarrow>
               (case load_saved_templates x w of
                  Inl e \<Rightarrow> (Inl e, w)
                | Inr saved_templates \<Rightarrow>
                    if prog_mode = ''generate'' then
                      (case parse_generate x (now_year x) rest w of
                         (Inl e, w1) \<Rightarrow> (Inl e, w1)
                       | (Inr args, w1) \<Rightarrow> generate_challenge x config saved_templates args w1)
                    else if prog_mode = ''add'' then
                      (case parse_add x rest w of
                         (Inl e, w1) \<Rightarrow> (Inl e, w1)
                       | (Inr args, w1) \<Rightarrow>
                           (case add_template x saved_templates args w1 of
                              (r, _, w2) \<Rightarrow> (r, w2)))
                    else (Inr (), w))))"

text \<open>
  The exit status of the process: 0 when \<open>main\<close> returns, the argument of \<open>exit\<close> when it
  was called, 1 for any other exception that nothing caught.
\<close>

fun exit_code :: "exn + unit \<Rightarrow> int" where
  "exit_code (Inr _) = 0"
| "exit_code (Inl (SystemExit n)) = n"
| "exit_code (Inl _) = 1"

section \<open>Notions the specification uses\<close>

text \<open>
  The number of positions of a text at which a token occurs, Python's \<open>sep.join(segs)\<close>,
  and names without square brackets.
\<close>

fun occurrences :: "string \<Rightarrow> string \<Rightarrow> nat" where
  "occurrences tok [] = (if tok = [] then 1 else 0)"
| "occurrences tok (c # cs) = (if prefix tok (c # cs) then 1 else 0) + occurrences tok cs"

fun join :: "string \<Rightarrow> string list \<Rightarrow> string" where
  "join sep [] = []"
| "join sep [seg] = seg"
| "join sep (seg # segs) = seg @ sep @ join sep segs"

definition bracket_free :: "string \<Rightarrow> bool" where
  "bracket_free s = (CHR ''['' \<notin> set s \<and> CHR '']'' \<notin> set s)"

text \<open>
  A name is delimited by its token when the brackets of the token are the only places where
  \<open>[[\<close> and \<open>]]\<close> occur in the token: the name contains neither \<open>[[\<close> nor \<open>]]\<close>, does
  not begin with \<open>[\<close> and does not end with \<open>]\<close>.
\<close>

definition delimited :: "string \<Rightarrow> bool" where
  "delimited k = (\<not> sublist ''[['' (CHR ''['' # k) \<and> \<not> sublist '']]'' (k @ '']''))"

text \<open>
  The output name the specification describes: the base name of the template path, without
  the suffix \<open>.tpl\<close> when the path ends with it.
\<close>

definition derived_name :: "string \<Rightarrow> string" where
  "derived_name template_path =
     (if endswith template_path ''.tpl''
      then take (length (basename template_path) - length ''.tpl'') (basename template_path)
      else basename template_path)"

subsection \<open>A concrete environment\<close>

text \<open>
  A server that answers every request with one fixed response, lowering of ASCII letters,
  codecs that read a registry
  with the single language \<open>python\<close> from the text \<open>P\<close> and a configuration from the text
  \<open>C\<close>, and parsers that accept fixed argument lists.
\<close>

definition demo_config :: "string \<rightharpoonup> string" where
  "demo_config = [''session_cookie'' \<mapsto> ''s3cr3t'', ''challenge_input_directory'' \<mapsto> ''inputs'']"

definition demo_templates :: "string \<rightharpoonup> string" where
  "demo_templates = [''python'' \<mapsto> ''/templates/sol.py.tpl'']"

definition demo_ext :: "response \<Rightarrow> ext" where
  "demo_ext r =
     \<lparr> str_lower = ascii_lower,
       http_get = (\<lambda>url cookie. r),
       toml_load = (\<lambda>t. if t = ''C'' then Some demo_config else None),
       pickle_load = (\<lambda>b. if b = ''P'' then Some demo_templates else None),
       pickle_dump = (\<lambda>m. case m ''python'' of None \<Rightarrow> ''E'' | Some p \<Rightarrow> ''P''),
       parse_generate = (\<lambda>y argv w.
          (Inr \<lparr> day = 1, language = ''PYTHON'', target_dir = ''/out'', year = y \<rparr>, w)),
       parse_add = (\<lambda>argv w.
          (Inr \<lparr> add_language = ''Python'', template_file = ''/templates/sol.py.tpl'' \<rparr>, w)),
       now_year = 2023 \<rparr>"

definition demo_world :: "filesystem \<Rightarrow> world" where
  "demo_world f = \<lparr> fs = f, stdout = [], stderr = [], requests_sent = [], browser_tabs = [] \<rparr>"

definition demo_fs :: filesystem where
  "demo_fs =
     [''inputs'' \<mapsto> Dir,
      ''/out'' \<mapsto> Dir,
      ''/templates'' \<mapsto> Dir,
      ''/templates/sol.py.tpl'' \<mapsto> File ''day [[CHALLENGE_DAY]] of [[CHALLENGE_YEAR]]'',
      ''resources'' \<mapsto> Dir,
      ''resources/config.toml'' \<mapsto> File ''C'',
      ''data'' \<mapsto> Dir]"

section \<open>Properties of the program\<close>

text \<open>Rules that evaluate the string and file operations on concrete inputs.\<close>

lemmas string_evals =
  ascii_lower_def lower_char_def str_int_def str_nat.simps digit_char_def endswith_def
  drop_last4_def basename_def dir_prefixes_def

lemmas fs_evals =
  resolve_def path_exists_def path_isdir_def open_read_def open_write_def mkdir_def
  print_out_def print_err_def

lemmas demo_evals =
  demo_config_def demo_templates_def demo_ext_def demo_world_def demo_fs_def
  AOC_ENDPOINT_def SAVED_TEMPLATES_FILE_PATH_def CONFIG_FILE_PATH_def

text \<open>The registry file lies directly in the directory \<open>data\<close>.\<close>

lemma dir_prefixes_saved: "dir_prefixes SAVED_TEMPLATES_FILE_PATH = [''data'']"
  by (simp add: SAVED_TEMPLATES_FILE_PATH_def dir_prefixes_def)

lemma resolve_saved:
  "resolve f SAVED_TEMPLATES_FILE_PATH =
     (case f ''data'' of
        None \<Rightarrow> Inl FileNotFoundError
      | Some (File c) \<Rightarrow> Inl NotADirectoryError
      | Some Dir \<Rightarrow>
          (case f SAVED_TEMPLATES_FILE_PATH of None \<Rightarrow> Inl FileNotFoundError | Some n \<Rightarrow> Inr n))"
  by (simp add: resolve_def dir_prefixes_saved split: option.splits node.splits)
    (simp add: SAVED_TEMPLATES_FILE_PATH_def)

text \<open>
  A world in which \<open>data\<close> is a regular file: the registry file does not exist, and loading
  the registry fails with the \<open>NotADirectoryError\<close> of \<open>open\<close>, which the handler for
  \<open>FileNotFoundError\<close> does not catch.
\<close>

theorem load_saved_templates_not_a_directory:
  "\<not> path_exists (fs (demo_world [''data'' \<mapsto> File ''x''])) SAVED_TEMPLATES_FILE_PATH \<and>
   load_saved_templates (demo_ext ConnectionFailed) (demo_world [''data'' \<mapsto> File ''x'']) =
     Inl NotADirectoryError"
  by (simp add: load_saved_templates_def open_read_def path_exists_def resolve_saved demo_world_def)

text \<open>
  Claim C5, amended. Loading the registry returns the empty mapping when the registry file
  does not exist and \<open>data\<close> is a directory or does not exist either, which is when \<open>open\<close>
  raises \<open>FileNotFoundError\<close>. It fails with the deserialisation error when the file exists
  and its content cannot be unpickled.
\<close>

theorem load_saved_templates_absent_or_corrupt:
  "(\<not> path_exists (fs w) SAVED_TEMPLATES_FILE_PATH \<and>
    (path_isdir (fs w) ''data'' \<or> \<not> path_exists (fs w) ''data'')
      \<longrightarrow> load_saved_templates x w = Inr Map.empty) \<and>
   (resolve (fs w) SAVED_TEMPLATES_FILE_PATH = Inr (File blob) \<and> pickle_load x blob = None
      \<longrightarrow> load_saved_templates x w = Inl UnpicklingError)"
proof -
  have d: "resolve (fs w) ''data'' = (case fs w ''data'' of None \<Rightarrow> Inl FileNotFoundError | Some n \<Rightarrow> Inr n)"
    by (simp add: resolve_def dir_prefixes_def)
  have 1: "load_saved_templates x w = Inr Map.empty"
    if "\<not> path_exists (fs w) SAVED_TEMPLATES_FILE_PATH"
      and "path_isdir (fs w) ''data'' \<or> \<not> path_exists (fs w) ''data''"
    using that
    by (auto simp: load_saved_templates_def open_read_def path_exists_def path_isdir_def
        resolve_saved d split: option.splits node.splits)
  have 2: "load_saved_templates x w = Inl UnpicklingError"
    if "resolve (fs w) SAVED_TEMPLATES_FILE_PATH = Inr (File blob)" and "pickle_load x blob = None"
    using that by (simp add: load_saved_templates_def open_read_def)
  show ?thesis
    using 1 2 by blast
qed

theorem load_saved_templates_absent_or_corrupt_witness:
  "\<not> path_exists (fs (demo_world demo_fs)) SAVED_TEMPLATES_FILE_PATH \<and>
   path_isdir (fs (demo_world demo_fs)) ''data'' \<and>
   load_saved_templates (demo_ext ConnectionFailed) (demo_world demo_fs) = Inr Map.empty \<and>
   resolve (fs (demo_world (demo_fs(''data/templates.pkl'' \<mapsto> File ''garbage''))))
     SAVED_TEMPLATES_FILE_PATH = Inr (File ''garbage'') \<and>
   pickle_load (demo_ext ConnectionFailed) ''garbage'' = None \<and>
   load_saved_templates (demo_ext ConnectionFailed)
     (demo_world (demo_fs(''data/templates.pkl'' \<mapsto> File ''garbage''))) = Inl UnpicklingError"
proof -
  have a: "\<not> path_exists (fs (demo_world demo_fs)) SAVED_TEMPLATES_FILE_PATH"
    by (simp add: path_exists_def resolve_saved demo_world_def demo_fs_def)
      (simp add: SAVED_TEMPLATES_FILE_PATH_def)
  have b: "path_isdir (fs (demo_world demo_fs)) ''data''"
    by (simp add: path_isdir_def resolve_def dir_prefixes_def demo_world_def demo_fs_def)
  have c: "resolve (fs (demo_world (demo_fs(''data/templates.pkl'' \<mapsto> File ''garbage''))))
     SAVED_TEMPLATES_FILE_PATH = Inr (File ''garbage'')"
    by (simp add: resolve_saved demo_world_def demo_fs_def)
      (simp add: SAVED_TEMPLATES_FILE_PATH_def)
  have d: "pickle_load (demo_ext ConnectionFailed) ''garbage'' = None"
    by (simp add: demo_ext_def)
  show ?thesis
    using a b c d
      load_saved_templates_absent_or_corrupt
        [where w = "demo_world demo_fs" and x = "demo_ext ConnectionFailed"]
      load_saved_templates_absent_or_corrupt
        [where w = "demo_world (demo_fs(''data/templates.pkl'' \<mapsto> File ''garbage''))"
           and blob = "''garbage''" and x = "demo_ext ConnectionFailed"]
    by blast
qed

text \<open>
  An add operation whose template path is a directory, not a file: the path exists, so the
  directory is registered and the registry file is rewritten.
\<close>

theorem add_template_directory_path:
  "fs (demo_world demo_fs) ''/templates'' = Some Dir \<and>
   add_template (demo_ext ConnectionFailed) demo_templates
     \<lparr>add_language = ''Rust'', template_file = ''/templates''\<rparr> (demo_world demo_fs) =
   (Inr (), demo_templates(''rust'' \<mapsto> ''/templates''),
    \<lparr>fs = demo_fs(''data/templates.pkl'' \<mapsto> File ''P''),
     stdout = [''Template added successfully.''], stderr = [],
     requests_sent = [], browser_tabs = []\<rparr>)"
  by (simp add: add_template_def path_exists_def resolve_def open_write_def print_out_def
      dir_prefixes_def basename_def ascii_lower_def lower_char_def
      demo_ext_def demo_templates_def demo_world_def demo_fs_def SAVED_TEMPLATES_FILE_PATH_def)

text \<open>
  Claim C6, amended. When the template path of an add operation does not exist, neither as a
  file nor as a directory, the operation exits with the code of \<open>INVALID_TEMPLATE_PATH\<close>
  before anything is changed: the dictionary in memory, the file system and hence the
  registry read back from it are what they were.
\<close>

theorem add_template_invalid_path:
  "\<not> path_exists (fs w) (template_file args) \<Longrightarrow>
     add_template x saved_templates args w =
       (Inl (SystemExit (error_value INVALID_TEMPLATE_PATH)), saved_templates,
        w\<lparr>stdout := stdout w @ [''Not a valid path: '' @ template_file args @ '' '' @ stderr_repr]\<rparr>) \<and>
     exit_code (fst (add_template x saved_templates args w)) = 3 \<and>
     fst (snd (add_template x saved_templates args w)) = saved_templates \<and>
     fs (snd (snd (add_template x saved_templates args w))) = fs w \<and>
     load_saved_templates x (snd (snd (add_template x saved_templates args w))) =
       load_saved_templates x w"
  by (simp add: add_template_def print_out_def load_saved_templates_def)

theorem add_template_invalid_path_witness:
  "\<not> path_exists (fs (demo_world demo_fs)) ''/nowhere/sol.py.tpl'' \<and>
   fst (add_template (demo_ext ConnectionFailed) demo_templates
          \<lparr>add_language = ''Rust'', template_file = ''/nowhere/sol.py.tpl''\<rparr> (demo_world demo_fs))
     = Inl (SystemExit 3) \<and>
   fst (snd (add_template (demo_ext ConnectionFailed) demo_templates
          \<lparr>add_language = ''Rust'', template_file = ''/nowhere/sol.py.tpl''\<rparr> (demo_world demo_fs)))
     = demo_templates \<and>
   fs (snd (snd (add_template (demo_ext ConnectionFailed) demo_templates
          \<lparr>add_language = ''Rust'', template_file = ''/nowhere/sol.py.tpl''\<rparr> (demo_world demo_fs))))
     = demo_fs"
proof -
  have h: "\<not> path_exists (fs (demo_world demo_fs)) ''/nowhere/sol.py.tpl''"
    by (simp add: path_exists_def resolve_def dir_prefixes_def demo_world_def demo_fs_def)
  show ?thesis
    using h add_template_invalid_path
              [where w = "demo_world demo_fs" and x = "demo_ext ConnectionFailed"
                 and saved_templates = demo_templates
                 and args = "\<lparr>add_language = ''Rust'', template_file = ''/nowhere/sol.py.tpl''\<rparr>"]
    by (simp add: demo_world_def)
qed

text \<open>The file operations raise operating-system errors only, never \<open>SystemExit\<close>.\<close>

lemma check_dirs_no_exit: "check_dirs f ds \<noteq> Some (SystemExit n)"
  by (induction ds) (auto split: option.splits node.splits)

lemma open_write_no_exit: "open_write f p c \<noteq> Inl (SystemExit n)"
  using check_dirs_no_exit[of f "dir_prefixes p" n]
  by (auto simp: open_write_def split: option.splits)

lemma mkdir_no_exit: "mkdir f p \<noteq> Inl (SystemExit n)"
  using check_dirs_no_exit[of f "dir_prefixes p" n]
  by (auto simp: mkdir_def split: option.splits)

lemma open_read_no_exit: "open_read f p \<noteq> Inl (SystemExit n)"
  using check_dirs_no_exit[of f "dir_prefixes p" n]
  by (auto simp: open_read_def resolve_def split: option.splits node.splits sum.splits if_splits)

lemma load_config_no_exit: "load_config x w \<noteq> Inl (SystemExit n)"
  using open_read_no_exit[of "fs w" CONFIG_FILE_PATH n]
  by (auto simp: load_config_def split: sum.splits option.splits)

lemma load_saved_templates_no_exit: "load_saved_templates x w \<noteq> Inl (SystemExit n)"
  using open_read_no_exit[of "fs w" SAVED_TEMPLATES_FILE_PATH n]
  by (auto simp: load_saved_templates_def split: sum.splits option.splits if_splits)

lemma exit_code_uncaught: "\<forall>n. e \<noteq> SystemExit n \<Longrightarrow> exit_code (Inl e) = 1"
  by (cases e) auto

lemma sublist_appI: "sublist m (a @ m @ b)"
  by (auto simp: sublist_def)

text \<open>
  Claim C7. When the request of a generate operation is answered with a status other than
  200, the operation ends with \<open>exit(2)\<close>, the value of \<open>BAD_AOC_REQUEST\<close>, which differs
  from 0 and from the two other error values; the message on the error stream carries the
  status code and the request URL; and the file system is unchanged, so no input file exists
  that did not exist before.
\<close>

theorem generate_challenge_bad_request:
  assumes "saved_templates (str_lower x (language args)) = Some template_path"
    and "config ''challenge_input_directory'' = Some inputs_dir"
    and "config ''session_cookie'' = Some cookie"
    and "http_get x (request_url (day args) (year args)) cookie = Response status body"
    and "status \<noteq> 200"
  shows "fst (generate_challenge x config saved_templates args w) =
           Inl (SystemExit (error_value BAD_AOC_REQUEST)) \<and>
         exit_code (fst (generate_challenge x config saved_templates args w)) = 2 \<and>
         error_value BAD_AOC_REQUEST \<noteq> 0 \<and>
         error_value BAD_AOC_REQUEST \<noteq> error_value TEMPLATE_NOT_FOUND \<and>
         error_value BAD_AOC_REQUEST \<noteq> error_value INVALID_TEMPLATE_PATH \<and>
         stderr (snd (generate_challenge x config saved_templates args w)) =
           stderr w @ [bad_request_message status (request_url (day args) (year args))] \<and>
         sublist (str_int status) (bad_request_message status (request_url (day args) (year args))) \<and>
         sublist (request_url (day args) (year args))
           (bad_request_message status (request_url (day args) (year args))) \<and>
         fs (snd (generate_challenge x config saved_templates args w)) = fs w"
proof -
  have "sublist (str_int status) (bad_request_message status (request_url (day args) (year args)))"
    unfolding bad_request_message_def by (rule sublist_appI)
  moreover have "sublist (request_url (day args) (year args))
           (bad_request_message status (request_url (day args) (year args)))"
    unfolding bad_request_message_def
    using sublist_appI[of "request_url (day args) (year args)" "''Error '' @ str_int status @ '' while fetching ''"]
    by simp
  ultimately show ?thesis
    using assms
    by (simp add: generate_challenge_def create_input_file_def get_challenge_input_def
        print_out_def print_err_def Let_def)
qed

theorem generate_challenge_bad_request_witness:
  "fs (snd (generate_challenge (demo_ext (Response 404 ''Not Found'')) demo_config demo_templates
       \<lparr>day = 1, language = ''Python'', target_dir = ''/out'', year = 2023\<rparr> (demo_world demo_fs)))
     = demo_fs \<and>
   exit_code (fst (generate_challenge (demo_ext (Response 404 ''Not Found'')) demo_config demo_templates
       \<lparr>day = 1, language = ''Python'', target_dir = ''/out'', year = 2023\<rparr> (demo_world demo_fs)))
     = 2 \<and>
   stderr (snd (generate_challenge (demo_ext (Response 404 ''Not Found'')) demo_config demo_templates
       \<lparr>day = 1, language = ''Python'', target_dir = ''/out'', year = 2023\<rparr> (demo_world demo_fs)))
     = [''Error 404 while fetching https://www.adventofcode.com/2023/day/1/input. Maybe your day or year is invalid, or maybe your session cookie is incorrect or has expired.'']"
proof -
  have 1: "demo_templates (str_lower (demo_ext (Response 404 ''Not Found''))
             (language \<lparr>day = 1, language = ''Python'', target_dir = ''/out'', year = 2023\<rparr>))
        = Some ''/templates/sol.py.tpl''"
    by (simp add: demo_templates_def demo_ext_def ascii_lower_def lower_char_def)
  have 2: "demo_config ''challenge_input_directory'' = Some ''inputs''"
    by (simp add: demo_config_def)
  have 3: "demo_config ''session_cookie'' = Some ''s3cr3t''"
    by (simp add: demo_config_def)
  have 4: "http_get (demo_ext (Response 404 ''Not Found''))
             (request_url (day \<lparr>day = 1, language = ''Python'', target_dir = ''/out'', year = 2023\<rparr>)
                          (year \<lparr>day = 1, language = ''Python'', target_dir = ''/out'', year = 2023\<rparr>))
             ''s3cr3t'' = Response 404 ''Not Found''"
    by (simp add: demo_ext_def)
  have 5: "(404::int) \<noteq> 200" by simp
  have m: "bad_request_message 404 (request_url 1 2023) =
    ''Error 404 while fetching https://www.adventofcode.com/2023/day/1/input. Maybe your day or year is invalid, or maybe your session cookie is incorrect or has expired.''"
    by (simp add: bad_request_message_def request_url_def AOC_ENDPOINT_def str_int_def
        str_nat.simps digit_char_def)
  show ?thesis
    using 1 2 3 4 5 m
      generate_challenge_bad_request
        [where x = "demo_ext (Response 404 ''Not Found'')" and config = demo_config
           and saved_templates = demo_templates
           and args = "\<lparr>day = 1, language = ''Python'', target_dir = ''/out'', year = 2023\<rparr>"
           and w = "demo_world demo_fs" and cookie = "''s3cr3t''" and inputs_dir = "''inputs''"
           and template_path = "''/templates/sol.py.tpl''" and status = 404 and body = "''Not Found''"]
    by (simp add: demo_world_def)
qed

text \<open>
  An invocation with the mode \<open>list\<close> in a directory without the configuration file: the
  configuration is loaded before the mode is looked at, so the program ends with the
  \<open>FileNotFoundError\<close> of \<open>load_config\<close> and exit status 1.
\<close>

theorem main_other_mode_config_missing:
  "''list'' \<noteq> ''generate'' \<and> ''list'' \<noteq> ''add'' \<and>
   main (demo_ext ConnectionFailed) [''bootstrapper.py'', ''list''] (demo_world Map.empty) =
     (Inl FileNotFoundError, demo_world Map.empty) \<and>
   exit_code (fst (main (demo_ext ConnectionFailed) [''bootstrapper.py'', ''list'']
     (demo_world Map.empty))) = 1"
  by (simp add: main_def load_config_def open_read_def resolve_def dir_prefixes_def
      CONFIG_FILE_PATH_def demo_world_def)

text \<open>
  Claim C10, amended. When the first argument is neither \<open>generate\<close> nor \<open>add\<close>, \<open>main\<close>
  leaves the world as it was: no file written, no request sent, nothing printed, no registry
  change. When moreover the configuration file and the registry load, \<open>main\<close> returns and
  the exit status is 0. Otherwise the error of the load leaves \<open>main\<close> and the exit status
  is 1.
\<close>

theorem main_other_mode:
  assumes "argv = prog # prog_mode # rest"
    and "prog_mode \<noteq> ''generate''"
    and "prog_mode \<noteq> ''add''"
  shows "snd (main x argv w) = w \<and>
         ((\<exists>config. load_config x w = Inr config) \<and>
          (\<exists>saved_templates. load_saved_templates x w = Inr saved_templates) \<longrightarrow>
            main x argv w = (Inr (), w) \<and> exit_code (fst (main x argv w)) = 0) \<and>
         (\<forall>e. load_config x w = Inl e \<longrightarrow>
            main x argv w = (Inl e, w) \<and> exit_code (fst (main x argv w)) = 1) \<and>
         (\<forall>e. (\<exists>config. load_config x w = Inr config) \<and> load_saved_templates x w = Inl e \<longrightarrow>
            main x argv w = (Inl e, w) \<and> exit_code (fst (main x argv w)) = 1)"
proof -
  have 1: "snd (main x argv w) = w"
    using assms by (auto simp: main_def split: sum.splits)
  have 2: "main x argv w = (Inr (), w) \<and> exit_code (fst (main x argv w)) = 0"
    if "\<exists>config. load_config x w = Inr config"
      "\<exists>saved_templates. load_saved_templates x w = Inr saved_templates"
    using assms that by (auto simp: main_def split: sum.splits)
  have 3: "main x argv w = (Inl e, w) \<and> exit_code (fst (main x argv w)) = 1"
    if e: "load_config x w = Inl e" for e
  proof -
    have "\<forall>n. e \<noteq> SystemExit n"
      using load_config_no_exit[of x w] e by auto
    then have "exit_code (Inl e) = 1"
      by (rule exit_code_uncaught)
    then show ?thesis
      using e by (simp add: main_def)
  qed
  have 4: "main x argv w = (Inl e, w) \<and> exit_code (fst (main x argv w)) = 1"
    if c: "\<exists>config. load_config x w = Inr config" and e: "load_saved_templates x w = Inl e" for e
  proof -
    have "\<forall>n. e \<noteq> SystemExit n"
      using load_saved_templates_no_exit[of x w] e by auto
    then have "exit_code (Inl e) = 1"
      by (rule exit_code_uncaught)
    then show ?thesis
      using assms c e by (auto simp: main_def)
  qed
  show ?thesis
    using 1 2 3 4 by blast
qed

theorem main_other_mode_witness:
  "main (demo_ext ConnectionFailed) [''bootstrapper.py'', ''list''] (demo_world demo_fs) =
     (Inr (), demo_world demo_fs) \<and>
   exit_code (fst (main (demo_ext ConnectionFailed) [''bootstrapper.py'', ''list'']
     (demo_world demo_fs))) = 0"
proof -
  have c: "\<exists>config. load_config (demo_ext ConnectionFailed) (demo_world demo_fs) = Inr config"
    by (simp add: load_config_def open_read_def resolve_def dir_prefixes_def demo_evals)
  have t: "\<exists>saved_templates.
             load_saved_templates (demo_ext ConnectionFailed) (demo_world demo_fs) = Inr saved_templates"
    by (simp add: load_saved_templates_def open_read_def resolve_def dir_prefixes_def demo_evals)
  have m: "''list'' \<noteq> ''generate''" "''list'' \<noteq> ''add''"
    by simp_all
  note th = main_other_mode [where argv = "[''bootstrapper.py'', ''list'']"
        and prog = "''bootstrapper.py''" and prog_mode = "''list''" and rest = "[]"
        and x = "demo_ext ConnectionFailed" and w = "demo_world demo_fs", OF refl m]
  have "main (demo_ext ConnectionFailed) [''bootstrapper.py'', ''list''] (demo_world demo_fs) =
          (Inr (), demo_world demo_fs) \<and>
        exit_code (fst (main (demo_ext ConnectionFailed) [''bootstrapper.py'', ''list'']
          (demo_world demo_fs))) = 0"
    using th [THEN conjunct2, THEN conjunct1, THEN mp, OF conjI [OF c t]] .
  then show ?thesis .
qed

text \<open>Writing the starter code sends no request.\<close>

lemma generate_starter_code_requests:
  "requests_sent (snd (generate_starter_code tp td vars w)) = requests_sent w"
  by (simp add: generate_starter_code_def print_out_def Let_def split: sum.splits)

text \<open>
  Claim C1. With the input file already present, \<open>create_input_file\<close> leaves the file
  system unchanged, but only after it has downloaded the input: the request is sent before
  the existence test, both in \<open>create_input_file\<close> and in the generate operation that calls
  it, and a status other than 200 ends the operation with \<open>exit(2)\<close> although the file is
  there.
\<close>

theorem create_input_file_existing_still_fetches:
  assumes "config ''challenge_input_directory'' = Some inputs_dir"
    and "config ''session_cookie'' = Some cookie"
    and "path_exists (fs w) (challenge_input_file_path inputs_dir d y)"
  shows "requests_sent (snd (create_input_file x config d y w)) =
           requests_sent w @ [(request_url d y, cookie)] \<and>
         fs (snd (create_input_file x config d y w)) = fs w \<and>
         (\<forall>status body. http_get x (request_url d y) cookie = Response status body \<and> status \<noteq> 200
            \<longrightarrow> fst (create_input_file x config d y w) = Inl (SystemExit 2)) \<and>
         (\<forall>saved_templates args template_path.
            saved_templates (str_lower x (language args)) = Some template_path \<and>
            day args = d \<and> year args = y
            \<longrightarrow> requests_sent (snd (generate_challenge x config saved_templates args w)) =
                  requests_sent w @ [(request_url d y, cookie)])"
proof -
  have a: "requests_sent (snd (create_input_file x config d y w')) =
           requests_sent w' @ [(request_url d y, cookie)]" for w'
    using assms(1,2)
    by (auto simp: create_input_file_def get_challenge_input_def print_out_def print_err_def Let_def
        mkdir_def open_write_def split: response.splits option.splits)
  have b: "fs (snd (create_input_file x config d y w)) = fs w"
    using assms
    by (auto simp: create_input_file_def get_challenge_input_def print_out_def print_err_def Let_def
        split: response.splits)
  have c: "fst (create_input_file x config d y w) = Inl (SystemExit 2)"
    if "http_get x (request_url d y) cookie = Response status body" "status \<noteq> 200" for status body
    using assms that
    by (auto simp: create_input_file_def get_challenge_input_def print_out_def print_err_def Let_def)
  have g: "requests_sent (snd (generate_challenge x config saved_templates args w)) =
                  requests_sent w @ [(request_url d y, cookie)]"
    if "saved_templates (str_lower x (language args)) = Some template_path" "day args = d" "year args = y"
    for saved_templates args template_path
  proof -
    let ?w1 = "print_out w (''Generating '' @ language args @ '' starter code for '' @
                      str_int (year args) @ '' day '' @ str_int (day args) @ '' challenge'')"
    obtain r w2 where cr: "create_input_file x config d y ?w1 = (r, w2)"
      by (cases "create_input_file x config d y ?w1")
    have w2: "requests_sent w2 = requests_sent w @ [(request_url d y, cookie)]"
      using a[of ?w1] cr by (simp add: print_out_def)
    show ?thesis
    proof (cases r)
      case (Inl e)
      then show ?thesis using that cr w2 by (simp add: generate_challenge_def)
    next
      case (Inr u)
      obtain r3 w3 where gs: "generate_starter_code template_path (target_dir args) (challenge_vars args) w2 = (r3, w3)"
        by (cases "generate_starter_code template_path (target_dir args) (challenge_vars args) w2")
      have w3: "requests_sent w3 = requests_sent w2"
        using generate_starter_code_requests[of template_path "target_dir args" "challenge_vars args" w2] gs
        by simp
      show ?thesis
        using that cr Inr gs w2 w3
        by (cases r3) (simp_all add: generate_challenge_def print_out_def)
    qed
  qed
  show ?thesis using a[of w] b c g by blast
qed

theorem create_input_file_existing_still_fetches_witness:
  "path_exists (fs (demo_world (demo_fs(''inputs/2023'' \<mapsto> Dir, ''inputs/2023/day5.txt'' \<mapsto> File ''old''))))
     (challenge_input_file_path ''inputs'' 5 2023) \<and>
   requests_sent (snd (create_input_file (demo_ext (Response 200 ''new'')) demo_config 5 2023
     (demo_world (demo_fs(''inputs/2023'' \<mapsto> Dir, ''inputs/2023/day5.txt'' \<mapsto> File ''old''))))) =
     [(''https://www.adventofcode.com/2023/day/5/input'', ''s3cr3t'')] \<and>
   fs (snd (create_input_file (demo_ext (Response 200 ''new'')) demo_config 5 2023
     (demo_world (demo_fs(''inputs/2023'' \<mapsto> Dir, ''inputs/2023/day5.txt'' \<mapsto> File ''old''))))) =
     demo_fs(''inputs/2023'' \<mapsto> Dir, ''inputs/2023/day5.txt'' \<mapsto> File ''old'') \<and>
   requests_sent (snd (generate_challenge (demo_ext (Response 200 ''new'')) demo_config demo_templates
     \<lparr>day = 5, language = ''python'', target_dir = ''/out'', year = 2023\<rparr>
     (demo_world (demo_fs(''inputs/2023'' \<mapsto> Dir, ''inputs/2023/day5.txt'' \<mapsto> File ''old''))))) =
     [(''https://www.adventofcode.com/2023/day/5/input'', ''s3cr3t'')]"
proof -
  have l: "demo_templates (str_lower (demo_ext (Response 200 ''new''))
             (language \<lparr>day = 5, language = ''python'', target_dir = ''/out'', year = 2023\<rparr>))
        = Some ''/templates/sol.py.tpl''"
    by (simp add: demo_templates_def demo_ext_def ascii_lower_def lower_char_def)
  have p: "challenge_input_file_path ''inputs'' 5 2023 = ''inputs/2023/day5.txt''"
    by (simp add: challenge_input_file_path_def string_evals)
  have u: "request_url 5 2023 = ''https://www.adventofcode.com/2023/day/5/input''"
    by (simp add: request_url_def AOC_ENDPOINT_def string_evals)
  have e: "path_exists (fs (demo_world (demo_fs(''inputs/2023'' \<mapsto> Dir, ''inputs/2023/day5.txt'' \<mapsto> File ''old''))))
     (challenge_input_file_path ''inputs'' 5 2023)"
    by (simp add: p path_exists_def resolve_def dir_prefixes_def demo_world_def demo_fs_def)
  have c: "demo_config ''challenge_input_directory'' = Some ''inputs''"
      "demo_config ''session_cookie'' = Some ''s3cr3t''"
    by (simp_all add: demo_config_def)
  show ?thesis
    using e c u l
      create_input_file_existing_still_fetches
        [where config = demo_config and inputs_dir = "''inputs''" and cookie = "''s3cr3t''"
           and d = 5 and y = 2023 and x = "demo_ext (Response 200 ''new'')"
           and w = "demo_world (demo_fs(''inputs/2023'' \<mapsto> Dir, ''inputs/2023/day5.txt'' \<mapsto> File ''old''))"]
    by (simp add: demo_world_def)
qed

text \<open>A path that ends with \<open>.tpl\<close> has a base name that ends with it.\<close>

lemma basename_tpl: "basename (zs @ ''.tpl'') = basename zs @ ''.tpl''"
  by (simp add: basename_def)

text \<open>The slice \<open>[:-4]\<close> of the whole output path removes the suffix of the base name.\<close>

lemma starter_code_file_path_derived:
  "starter_code_file_path template_path tdir = tdir @ ''/'' @ derived_name template_path"
proof (cases "endswith template_path ''.tpl''")
  case True
  then obtain zs where zs: "template_path = zs @ ''.tpl''"
    by (auto simp: endswith_def suffix_def)
  show ?thesis
    using True by (simp add: starter_code_file_path_def derived_name_def drop_last4_def zs basename_tpl)
next
  case False
  then show ?thesis by (simp add: starter_code_file_path_def derived_name_def)
qed

text \<open>
  Claim C4. The output path that \<open>generate_starter_code\<close> computes is the target
  directory, a slash and the derived name: the base name of the template path without its
  suffix \<open>.tpl\<close> when the path ends with \<open>.tpl\<close>, the base name itself otherwise. When
  the template can be read and the output file can be written, the substituted content is
  written to that path and the path is returned.
\<close>

theorem generate_starter_code_output_name:
  "starter_code_file_path template_path tdir = tdir @ ''/'' @ derived_name template_path \<and>
   (endswith template_path ''.tpl'' \<longrightarrow> basename template_path = derived_name template_path @ ''.tpl'') \<and>
   (\<not> endswith template_path ''.tpl'' \<longrightarrow> derived_name template_path = basename template_path) \<and>
   (open_read (fs w) template_path = Inr template_content \<and>
    open_write (fs w) (tdir @ ''/'' @ derived_name template_path)
      (substitute template_vars template_content) = Inr f'
    \<longrightarrow> fst (generate_starter_code template_path tdir template_vars w) =
          Inr (tdir @ ''/'' @ derived_name template_path) \<and>
        fs (snd (generate_starter_code template_path tdir template_vars w)) = f' \<and>
        f' = (fs w)(tdir @ ''/'' @ derived_name template_path \<mapsto>
                File (substitute template_vars template_content)))"
proof -
  have a: "endswith template_path ''.tpl'' \<longrightarrow> basename template_path = derived_name template_path @ ''.tpl''"
  proof
    assume "endswith template_path ''.tpl''"
    then obtain zs where zs: "template_path = zs @ ''.tpl''"
      by (auto simp: endswith_def suffix_def)
    show "basename template_path = derived_name template_path @ ''.tpl''"
      by (simp add: derived_name_def endswith_def suffix_def zs basename_tpl)
  qed
  have b: "\<not> endswith template_path ''.tpl'' \<longrightarrow> derived_name template_path = basename template_path"
    by (simp add: derived_name_def)
  have c: "fst (generate_starter_code template_path tdir template_vars w) =
          Inr (tdir @ ''/'' @ derived_name template_path) \<and>
        fs (snd (generate_starter_code template_path tdir template_vars w)) = f' \<and>
        f' = (fs w)(tdir @ ''/'' @ derived_name template_path \<mapsto>
                File (substitute template_vars template_content))"
    if "open_read (fs w) template_path = Inr template_content"
      "open_write (fs w) (tdir @ ''/'' @ derived_name template_path)
         (substitute template_vars template_content) = Inr f'"
  proof -
    have "f' = (fs w)(tdir @ ''/'' @ derived_name template_path \<mapsto>
                File (substitute template_vars template_content))"
      using that(2) by (auto simp: open_write_def split: if_splits option.splits)
    then show ?thesis
      using that
      by (simp add: generate_starter_code_def starter_code_file_path_derived print_out_def Let_def)
  qed
  show ?thesis
    using a b c starter_code_file_path_derived by blast
qed

theorem generate_starter_code_output_name_witness:
  "endswith ''/templates/sol.py.tpl'' ''.tpl'' \<and>
   derived_name ''/templates/sol.py.tpl'' = ''sol.py'' \<and>
   \<not> endswith ''/templates/foo.py'' ''.tpl'' \<and>
   derived_name ''/templates/foo.py'' = ''foo.py'' \<and>
   open_read (fs (demo_world demo_fs)) ''/templates/sol.py.tpl'' =
     Inr ''day [[CHALLENGE_DAY]] of [[CHALLENGE_YEAR]]'' \<and>
   generate_starter_code ''/templates/sol.py.tpl'' ''/out'' [(''CHALLENGE_DAY'', ''1''), (''CHALLENGE_YEAR'', ''2023'')]
     (demo_world demo_fs) =
     (Inr ''/out/sol.py'',
      \<lparr>fs = demo_fs(''/out/sol.py'' \<mapsto> File ''day 1 of 2023''),
       stdout = [''Parsing template...'', ''Generating starter code...''], stderr = [],
       requests_sent = [], browser_tabs = []\<rparr>)"
proof -
  have e: "endswith ''/templates/sol.py.tpl'' ''.tpl''" "\<not> endswith ''/templates/foo.py'' ''.tpl''"
    by (simp_all add: endswith_def suffix_def)
  have r: "open_read (fs (demo_world demo_fs)) ''/templates/sol.py.tpl'' =
     Inr ''day [[CHALLENGE_DAY]] of [[CHALLENGE_YEAR]]''"
    by (simp add: open_read_def resolve_def dir_prefixes_def demo_world_def demo_fs_def)
  have s: "substitute [(''CHALLENGE_DAY'', ''1''), (''CHALLENGE_YEAR'', ''2023'')]
             ''day [[CHALLENGE_DAY]] of [[CHALLENGE_YEAR]]'' = ''day 1 of 2023''"
    by (simp add: token_def replace.simps)
  have d1: "derived_name ''/templates/sol.py.tpl'' = ''sol.py''"
    using generate_starter_code_output_name [where template_path = "''/templates/sol.py.tpl''"] e
    by (simp add: basename_def)
  have d2: "derived_name ''/templates/foo.py'' = ''foo.py''"
    using generate_starter_code_output_name [where template_path = "''/templates/foo.py''"] e
    by (simp add: basename_def)
  have w: "open_write (fs (demo_world demo_fs)) (''/out'' @ ''/'' @ derived_name ''/templates/sol.py.tpl'')
      (substitute [(''CHALLENGE_DAY'', ''1''), (''CHALLENGE_YEAR'', ''2023'')]
         ''day [[CHALLENGE_DAY]] of [[CHALLENGE_YEAR]]'') =
      Inr (demo_fs(''/out/sol.py'' \<mapsto> File ''day 1 of 2023''))"
    unfolding d1 s
    by (simp add: open_write_def dir_prefixes_def basename_def demo_world_def demo_fs_def)
  have g: "generate_starter_code ''/templates/sol.py.tpl'' ''/out'' [(''CHALLENGE_DAY'', ''1''), (''CHALLENGE_YEAR'', ''2023'')]
     (demo_world demo_fs) =
     (Inr ''/out/sol.py'',
      \<lparr>fs = demo_fs(''/out/sol.py'' \<mapsto> File ''day 1 of 2023''),
       stdout = [''Parsing template...'', ''Generating starter code...''], stderr = [],
       requests_sent = [], browser_tabs = []\<rparr>)"
  proof -
    obtain res w' where gw: "generate_starter_code ''/templates/sol.py.tpl'' ''/out''
        [(''CHALLENGE_DAY'', ''1''), (''CHALLENGE_YEAR'', ''2023'')] (demo_world demo_fs) = (res, w')"
      by (cases "generate_starter_code ''/templates/sol.py.tpl'' ''/out''
        [(''CHALLENGE_DAY'', ''1''), (''CHALLENGE_YEAR'', ''2023'')] (demo_world demo_fs)")
    have "res = Inr ''/out/sol.py'' \<and> fs w' = demo_fs(''/out/sol.py'' \<mapsto> File ''day 1 of 2023'')"
      using generate_starter_code_output_name
        [where template_path = "''/templates/sol.py.tpl''" and tdir = "''/out''"
           and w = "demo_world demo_fs"
           and template_content = "''day [[CHALLENGE_DAY]] of [[CHALLENGE_YEAR]]''"
           and template_vars = "[(''CHALLENGE_DAY'', ''1''), (''CHALLENGE_YEAR'', ''2023'')]"
           and f' = "demo_fs(''/out/sol.py'' \<mapsto> File ''day 1 of 2023'')"]
        r w gw d1
      by simp
    moreover have "stdout w' = [''Parsing template...'', ''Generating starter code...''] \<and>
       stderr w' = [] \<and> requests_sent w' = [] \<and> browser_tabs w' = []"
      using gw r w
      by (auto simp: generate_starter_code_def starter_code_file_path_derived print_out_def Let_def
          demo_world_def)
    ultimately show ?thesis using gw by (cases w') simp
  qed
  show ?thesis using e r d1 d2 g by simp
qed

text \<open>Only the registry lookup ends a generate operation with the value of \<open>TEMPLATE_NOT_FOUND\<close>.\<close>

lemma create_input_file_no_exit1:
  "fst (create_input_file x config d y w) \<noteq> Inl (SystemExit 1)"
  using open_write_no_exit mkdir_no_exit
  by (auto simp: create_input_file_def get_challenge_input_def Let_def
      split: option.splits response.splits sum.splits)

lemma generate_starter_code_no_exit:
  "fst (generate_starter_code tp td vars w) \<noteq> Inl (SystemExit n)"
  using open_write_no_exit open_read_no_exit
  by (auto simp: generate_starter_code_def Let_def split: sum.splits)

lemma generate_challenge_found:
  assumes "saved_templates (str_lower x (language args)) = Some p"
  shows "fst (generate_challenge x config saved_templates args w) \<noteq>
           Inl (SystemExit (error_value TEMPLATE_NOT_FOUND))"
proof -
  let ?w1 = "print_out w (''Generating '' @ language args @ '' starter code for '' @
                      str_int (year args) @ '' day '' @ str_int (day args) @ '' challenge'')"
  obtain r w2 where cr: "create_input_file x config (day args) (year args) ?w1 = (r, w2)"
    by (cases "create_input_file x config (day args) (year args) ?w1")
  have r: "r \<noteq> Inl (SystemExit 1)"
    using create_input_file_no_exit1[of x config "day args" "year args" ?w1] cr by simp
  show ?thesis
  proof (cases r)
    case (Inl e)
    then show ?thesis using assms cr r by (simp add: generate_challenge_def Let_def)
  next
    case (Inr u)
    obtain r3 w3 where gs: "generate_starter_code p (target_dir args) (challenge_vars args) w2 = (r3, w3)"
      by (cases "generate_starter_code p (target_dir args) (challenge_vars args) w2")
    have "r3 \<noteq> Inl (SystemExit 1)"
      using generate_starter_code_no_exit[of p "target_dir args" "challenge_vars args" w2 1] gs by simp
    then show ?thesis
      using assms cr Inr gs by (cases r3) (simp_all add: generate_challenge_def Let_def)
  qed
qed

text \<open>A generate operation uses the registry only through the entry of the lowered language.\<close>

lemma generate_challenge_lookup:
  assumes "saved_templates (str_lower x (language args)) = Some p"
  shows "generate_challenge x config saved_templates args w =
         generate_challenge x config [str_lower x (language args) \<mapsto> p] args w"
  using assms by (simp add: generate_challenge_def)

text \<open>What a successful add leaves behind, and what the next process reads from it.\<close>

lemma add_template_success:
  assumes "path_exists (fs w0) (template_file a)"
    and "fst (add_template x saved_templates a w0) = Inr ()"
  shows "fst (snd (add_template x saved_templates a w0)) =
           saved_templates(str_lower x (add_language a) \<mapsto> template_file a)"
    and "fs (snd (snd (add_template x saved_templates a w0))) =
           (fs w0)(SAVED_TEMPLATES_FILE_PATH \<mapsto>
              File (pickle_dump x (saved_templates(str_lower x (add_language a) \<mapsto> template_file a))))"
    and "fs w0 ''data'' = Some Dir"
proof -
  let ?st = "saved_templates(str_lower x (add_language a) \<mapsto> template_file a)"
  obtain f' where ow: "open_write (fs w0) SAVED_TEMPLATES_FILE_PATH (pickle_dump x ?st) = Inr f'"
    using assms by (cases "open_write (fs w0) SAVED_TEMPLATES_FILE_PATH (pickle_dump x ?st)")
      (simp_all add: add_template_def Let_def)
  have f': "f' = (fs w0)(SAVED_TEMPLATES_FILE_PATH \<mapsto> File (pickle_dump x ?st))"
    using ow by (auto simp: open_write_def split: if_splits option.splits)
  show "fst (snd (add_template x saved_templates a w0)) = ?st"
    using assms(1) ow by (simp add: add_template_def Let_def)
  show "fs (snd (snd (add_template x saved_templates a w0))) =
           (fs w0)(SAVED_TEMPLATES_FILE_PATH \<mapsto> File (pickle_dump x ?st))"
    using assms(1) ow f' by (simp add: add_template_def Let_def print_out_def)
  show "fs w0 ''data'' = Some Dir"
    using ow by (auto simp: open_write_def dir_prefixes_saved split: if_splits option.splits node.splits)
qed

lemma load_saved_templates_written:
  assumes "f ''data'' = Some Dir"
    and "fs w = f(SAVED_TEMPLATES_FILE_PATH \<mapsto> File blob)"
    and "pickle_load x blob = Some st"
  shows "load_saved_templates x w = Inr st"
proof -
  have "''data'' \<noteq> SAVED_TEMPLATES_FILE_PATH"
    by (simp add: SAVED_TEMPLATES_FILE_PATH_def)
  then have "resolve (fs w) SAVED_TEMPLATES_FILE_PATH = Inr (File blob)"
    using assms(1,2) by (simp add: resolve_saved)
  then show ?thesis
    using assms(3) by (simp add: load_saved_templates_def open_read_def)
qed

text \<open>
  Claim C8. A successful add stores the template path under the lowered language name, in
  the dictionary and in the registry file. A later process that runs on the file system the
  add left behind, with a codec that reads back what it wrote, loads that registry; a
  generate call whose language has the same lowered form finds the entry: the lookup gives
  the stored template path, the operation does not end with the value of
  \<open>TEMPLATE_NOT_FOUND\<close>, and a generate run of \<open>main\<close> is the generate operation with that
  template path.
\<close>

theorem language_case_insensitive:
  assumes "path_exists (fs w0) (template_file a)"
    and "fst (add_template x saved_templates a w0) = Inr ()"
    and "pickle_load x (pickle_dump x
           (saved_templates(str_lower x (add_language a) \<mapsto> template_file a))) =
         Some (saved_templates(str_lower x (add_language a) \<mapsto> template_file a))"
    and "fs w = fs (snd (snd (add_template x saved_templates a w0)))"
    and "str_lower x (language args) = str_lower x (add_language a)"
  shows "fst (snd (add_template x saved_templates a w0)) =
           saved_templates(str_lower x (add_language a) \<mapsto> template_file a) \<and>
         fs (snd (snd (add_template x saved_templates a w0))) =
           (fs w0)(SAVED_TEMPLATES_FILE_PATH \<mapsto> File (pickle_dump x
              (saved_templates(str_lower x (add_language a) \<mapsto> template_file a)))) \<and>
         load_saved_templates x w =
           Inr (saved_templates(str_lower x (add_language a) \<mapsto> template_file a)) \<and>
         (\<forall>st. load_saved_templates x w = Inr st \<longrightarrow>
            st (str_lower x (language args)) = Some (template_file a) \<and>
            fst (generate_challenge x config st args w') \<noteq>
              Inl (SystemExit (error_value TEMPLATE_NOT_FOUND)) \<and>
            generate_challenge x config st args w' =
              generate_challenge x config [str_lower x (language args) \<mapsto> template_file a] args w') \<and>
         (load_config x w = Inr config \<and> parse_generate x (now_year x) rest w = (Inr args, w')
            \<longrightarrow> main x (prog # ''generate'' # rest) w =
                  generate_challenge x config [str_lower x (language args) \<mapsto> template_file a] args w' \<and>
                fst (main x (prog # ''generate'' # rest) w) \<noteq>
                  Inl (SystemExit (error_value TEMPLATE_NOT_FOUND)))"
proof -
  let ?st = "saved_templates(str_lower x (add_language a) \<mapsto> template_file a)"
  note s = add_template_success[OF assms(1,2)]
  have fw: "fs w = (fs w0)(SAVED_TEMPLATES_FILE_PATH \<mapsto> File (pickle_dump x ?st))"
    using assms(4) s(2) by simp
  have ld: "load_saved_templates x w = Inr ?st"
    using s(3) fw assms(3) by (rule load_saved_templates_written)
  have lk: "?st (str_lower x (language args)) = Some (template_file a)"
    using assms(5) by simp
  have nf: "fst (generate_challenge x config ?st args w') \<noteq>
              Inl (SystemExit (error_value TEMPLATE_NOT_FOUND))"
    using lk by (rule generate_challenge_found)
  have eq: "generate_challenge x config ?st args w' =
            generate_challenge x config [str_lower x (language args) \<mapsto> template_file a] args w'"
    using lk by (rule generate_challenge_lookup)
  have g: "\<forall>st. load_saved_templates x w = Inr st \<longrightarrow>
            st (str_lower x (language args)) = Some (template_file a) \<and>
            fst (generate_challenge x config st args w') \<noteq>
              Inl (SystemExit (error_value TEMPLATE_NOT_FOUND)) \<and>
            generate_challenge x config st args w' =
              generate_challenge x config [str_lower x (language args) \<mapsto> template_file a] args w'"
    using ld lk nf eq by simp
  have m: "main x (prog # ''generate'' # rest) w =
             generate_challenge x config [str_lower x (language args) \<mapsto> template_file a] args w' \<and>
           fst (main x (prog # ''generate'' # rest) w) \<noteq>
             Inl (SystemExit (error_value TEMPLATE_NOT_FOUND))"
    if "load_config x w = Inr config" "parse_generate x (now_year x) rest w = (Inr args, w')"
  proof -
    have "main x (prog # ''generate'' # rest) w = generate_challenge x config ?st args w'"
      using that ld by (simp add: main_def)
    then show ?thesis
      using nf eq by simp
  qed
  show ?thesis
    using s(1,2) ld g m by blast
qed

theorem language_case_insensitive_witness:
  "path_exists (fs (demo_world demo_fs)) ''/templates/sol.py.tpl'' \<and>
   ascii_lower ''PYTHON'' = ascii_lower ''Python'' \<and>
   add_template (demo_ext (Response 200 ''data'')) Map.empty
     \<lparr>add_language = ''Python'', template_file = ''/templates/sol.py.tpl''\<rparr> (demo_world demo_fs) =
   (Inr (), [''python'' \<mapsto> ''/templates/sol.py.tpl''],
    \<lparr>fs = demo_fs(''data/templates.pkl'' \<mapsto> File ''P''),
     stdout = [''Template added successfully.''], stderr = [],
     requests_sent = [], browser_tabs = []\<rparr>) \<and>
   load_saved_templates (demo_ext (Response 200 ''data''))
     (demo_world (demo_fs(''data/templates.pkl'' \<mapsto> File ''P''))) =
     Inr [''python'' \<mapsto> ''/templates/sol.py.tpl''] \<and>
   main (demo_ext (Response 200 ''data'')) [''bootstrapper.py'', ''generate'', ''1'', ''PYTHON'', ''/out'']
     (demo_world (demo_fs(''data/templates.pkl'' \<mapsto> File ''P''))) =
   (Inr (),
    \<lparr>fs = demo_fs(''data/templates.pkl'' \<mapsto> File ''P'',
                 ''inputs/2023'' \<mapsto> Dir, ''inputs/2023/day1.txt'' \<mapsto> File ''data'',
                 ''/out/sol.py'' \<mapsto> File ''day 1 of 2023''),
     stdout = [''Generating PYTHON starter code for 2023 day 1 challenge'',
               ''Creating input file...'', ''Downloading challenge input...'',
               ''Parsing template...'', ''Generating starter code...'', ''Done!'',
               ''Your starter code file is located at /out/sol.py. The challenge page has been opened in your browser. Good luck!''],
     stderr = [],
     requests_sent = [(''https://www.adventofcode.com/2023/day/1/input'', ''s3cr3t'')],
     browser_tabs = [''https://adventofcode.com/2023/day/1'']\<rparr>)"
proof -
  let ?x = "demo_ext (Response 200 ''data'')"
  let ?a = "\<lparr>add_language = ''Python'', template_file = ''/templates/sol.py.tpl''\<rparr>"
  let ?start = "demo_world demo_fs"
  let ?later = "demo_world (demo_fs(''data/templates.pkl'' \<mapsto> File ''P''))"
  let ?args = "\<lparr>day = 1, language = ''PYTHON'', target_dir = ''/out'', year = 2023\<rparr>"
  let ?rest = "[''1'', ''PYTHON'', ''/out'']"
  have l: "ascii_lower ''PYTHON'' = ''python''" "ascii_lower ''Python'' = ''python''"
    by (simp_all add: ascii_lower_def lower_char_def)
  have sl: "str_lower ?x = ascii_lower"
    by (simp add: demo_ext_def)
  have h1: "path_exists (fs ?start) (template_file ?a)"
    by (simp add: path_exists_def resolve_def dir_prefixes_def demo_world_def demo_fs_def)
  have ad: "add_template ?x Map.empty ?a ?start =
    (Inr (), [''python'' \<mapsto> ''/templates/sol.py.tpl''],
     \<lparr>fs = demo_fs(''data/templates.pkl'' \<mapsto> File ''P''),
      stdout = [''Template added successfully.''], stderr = [],
      requests_sent = [], browser_tabs = []\<rparr>)"
    by (simp add: add_template_def path_exists_def resolve_def open_write_def print_out_def
        dir_prefixes_def basename_def l
        demo_ext_def demo_world_def demo_fs_def SAVED_TEMPLATES_FILE_PATH_def)
  have h2: "fst (add_template ?x Map.empty ?a ?start) = Inr ()"
    unfolding ad by simp
  have h3: "pickle_load ?x (pickle_dump ?x (Map.empty(str_lower ?x (add_language ?a) \<mapsto> template_file ?a))) =
         Some (Map.empty(str_lower ?x (add_language ?a) \<mapsto> template_file ?a))"
    by (simp add: demo_ext_def demo_templates_def l)
  have h4: "fs ?later = fs (snd (snd (add_template ?x Map.empty ?a ?start)))"
    unfolding ad by (simp add: demo_world_def)
  have h5: "str_lower ?x (language ?args) = str_lower ?x (add_language ?a)"
    by (simp add: sl l)
  have lc: "load_config ?x ?later = Inr demo_config"
    by (simp add: load_config_def open_read_def resolve_def dir_prefixes_def
        demo_ext_def demo_world_def demo_fs_def CONFIG_FILE_PATH_def)
  have pg: "parse_generate ?x (now_year ?x) ?rest ?later = (Inr ?args, ?later)"
    by (simp add: demo_ext_def)
  have g: "generate_challenge ?x demo_config
             [str_lower ?x (language ?args) \<mapsto> template_file ?a] ?args ?later =
   (Inr (),
    \<lparr>fs = demo_fs(''data/templates.pkl'' \<mapsto> File ''P'',
                 ''inputs/2023'' \<mapsto> Dir, ''inputs/2023/day1.txt'' \<mapsto> File ''data'',
                 ''/out/sol.py'' \<mapsto> File ''day 1 of 2023''),
     stdout = [''Generating PYTHON starter code for 2023 day 1 challenge'',
               ''Creating input file...'', ''Downloading challenge input...'',
               ''Parsing template...'', ''Generating starter code...'', ''Done!'',
               ''Your starter code file is located at /out/sol.py. The challenge page has been opened in your browser. Good luck!''],
     stderr = [],
     requests_sent = [(''https://www.adventofcode.com/2023/day/1/input'', ''s3cr3t'')],
     browser_tabs = [''https://adventofcode.com/2023/day/1'']\<rparr>)"
    by (simp add: generate_challenge_def create_input_file_def get_challenge_input_def
        generate_starter_code_def challenge_vars_def challenge_input_file_path_def request_url_def
        starter_code_file_path_def token_def replace.simps l Let_def
        str_int_def str_nat.simps digit_char_def endswith_def drop_last4_def basename_def
        dir_prefixes_def suffix_def
        resolve_def path_exists_def path_isdir_def open_read_def open_write_def mkdir_def
        print_out_def print_err_def
        demo_config_def demo_ext_def demo_world_def demo_fs_def AOC_ENDPOINT_def)
  note th = language_case_insensitive
      [where x = ?x and a = ?a and ?w0.0 = ?start and saved_templates = Map.empty and w = ?later
         and args = ?args and w' = ?later and config = demo_config and rest = ?rest
         and prog = "''bootstrapper.py''", OF h1 h2 h3 h4 h5]
  have ld: "load_saved_templates ?x ?later =
            Inr (Map.empty(str_lower ?x (add_language ?a) \<mapsto> template_file ?a))"
    using th by (rule conjunct2 [THEN conjunct2, THEN conjunct1])
  have mn: "main ?x (''bootstrapper.py'' # ''generate'' # ?rest) ?later =
            generate_challenge ?x demo_config
              [str_lower ?x (language ?args) \<mapsto> template_file ?a] ?args ?later"
    using th [THEN conjunct2, THEN conjunct2, THEN conjunct2, THEN conjunct2, THEN mp,
              OF conjI [OF lc pg]]
    by (rule conjunct1)
  have ld': "load_saved_templates ?x ?later = Inr [''python'' \<mapsto> ''/templates/sol.py.tpl'']"
    using ld by (simp add: sl l)
  have h1': "path_exists (fs (demo_world demo_fs)) ''/templates/sol.py.tpl''"
    using h1 by simp
  have l': "ascii_lower ''PYTHON'' = ascii_lower ''Python''"
    by (simp add: l)
  show ?thesis
    using h1' l' ad ld' mn [unfolded g] by (simp only: simp_thms)
qed

section \<open>Facts about \<open>replace\<close>\<close>

lemma token_Cons: "token k = CHR ''['' # CHR ''['' # k @ '']]''"
  by (simp add: token_def)

lemma token_nonempty: "token k \<noteq> []"
  by (simp add: token_def)

lemma replace_Nil: "old \<noteq> [] \<Longrightarrow> replace old new [] = []"
  by (simp add: replace.simps)

lemma replace_match: "old \<noteq> [] \<Longrightarrow> replace old new (old @ s) = new @ replace old new s"
  by (cases old) (simp_all add: replace.simps)

lemma replace_step:
  "old \<noteq> [] \<Longrightarrow> \<not> prefix old (c # cs) \<Longrightarrow> replace old new (c # cs) = c # replace old new cs"
  by (simp add: replace.simps)

lemma replace_skip:
  "old \<noteq> [] \<Longrightarrow> hd old \<notin> set a \<Longrightarrow> replace old new (a @ b) = a @ replace old new b"
proof (induction a)
  case Nil
  then show ?case by simp
next
  case (Cons c a)
  then have "\<not> prefix old (c # a @ b)"
    by (cases old) auto
  with Cons show ?case
    by (simp add: replace_step)
qed

lemma occurrences_skip:
  "tok \<noteq> [] \<Longrightarrow> hd tok \<notin> set a \<Longrightarrow> occurrences tok (a @ b) = occurrences tok b"
proof (induction a)
  case Nil
  then show ?case by simp
next
  case (Cons c a)
  then have "\<not> prefix tok (c # a @ b)"
    by (cases tok) auto
  with Cons show ?case by simp
qed

text \<open>Inside the token of a name without brackets no token starts.\<close>

lemma token_inner_no_prefix:
  assumes "bracket_free k"
  shows "\<not> prefix (token k') (CHR ''['' # k @ '']]'' @ r)"
  using assms by (cases k) (auto simp: token_Cons bracket_free_def)

lemma bracket_free_tail: "bracket_free k \<Longrightarrow> CHR ''['' \<notin> set (k @ '']]'')"
  by (simp add: bracket_free_def)

lemma replace_over_token:
  assumes "bracket_free k" and "\<not> prefix (token k') (token k @ r)"
  shows "replace (token k') v (token k @ r) = token k @ replace (token k') v r"
proof -
  have 1: "replace (token k') v (token k @ r) =
           CHR ''['' # replace (token k') v (CHR ''['' # k @ '']]'' @ r)"
    using assms(2) replace_step[OF token_nonempty, of k' "CHR ''[''" "CHR ''['' # k @ '']]'' @ r" v]
    by (simp add: token_Cons)
  have 2: "replace (token k') v (CHR ''['' # k @ '']]'' @ r) =
           CHR ''['' # replace (token k') v ((k @ '']]'') @ r)"
    using token_inner_no_prefix[OF assms(1), of k' r]
      replace_step[OF token_nonempty, of k' "CHR ''[''" "k @ '']]'' @ r" v]
    by simp
  have 3: "replace (token k') v ((k @ '']]'') @ r) = (k @ '']]'') @ replace (token k') v r"
    using replace_skip[OF token_nonempty, of k' "k @ '']]''" v r] bracket_free_tail[OF assms(1)]
    by (simp add: token_Cons)
  show ?thesis
    unfolding 1 2 3 by (simp add: token_Cons)
qed

lemma occurrences_over_token:
  assumes "bracket_free k"
  shows "occurrences (token k') (token k @ r) =
         (if prefix (token k') (token k @ r) then 1 else 0) + occurrences (token k') r"
proof -
  have 2: "occurrences (token k') (CHR ''['' # k @ '']]'' @ r) =
           occurrences (token k') ((k @ '']]'') @ r)"
    using token_inner_no_prefix[OF assms(1), of k' r] by simp
  have 3: "occurrences (token k') ((k @ '']]'') @ r) = occurrences (token k') r"
    using occurrences_skip[OF token_nonempty, of k' "k @ '']]''" r] bracket_free_tail[OF assms(1)]
    by (simp add: token_Cons)
  have "token k @ r = CHR ''['' # (CHR ''['' # k @ '']]'' @ r)"
    by (simp add: token_Cons)
  then show ?thesis
    using 2 3 by simp
qed

text \<open>Two tokens of names without brackets that start at the same position are the same.\<close>

lemma token_body_prefix:
  "bracket_free k \<Longrightarrow> bracket_free k' \<Longrightarrow> prefix (k @ '']]'') (k' @ '']]'' @ r) \<Longrightarrow> k = k'"
proof (induction k arbitrary: k')
  case Nil
  then show ?case by (cases k') (auto simp: bracket_free_def)
next
  case (Cons c k)
  then show ?case by (cases k') (auto simp: bracket_free_def)
qed

lemma token_prefix_same:
  "bracket_free k \<Longrightarrow> bracket_free k' \<Longrightarrow> prefix (token k) (token k' @ r) \<Longrightarrow> k = k'"
  using token_body_prefix[of k k' r] by (simp add: token_Cons)


text \<open>
  What a text that starts the result of a replacement looks like: it starts the input too,
  or an inserted value begins inside it.
\<close>

lemma prefix_replace_cases:
  assumes "old \<noteq> []"
  shows "prefix p (replace old new s) \<Longrightarrow>
         prefix p s \<or> (\<exists>a b. p = a @ b \<and> b \<noteq> [] \<and> (prefix new b \<or> prefix b new))"
proof (induction s arbitrary: p)
  case Nil
  then show ?case
    using assms by (simp add: replace_Nil)
next
  case (Cons c cs)
  show ?case
  proof (cases "prefix old (c # cs)")
    case True
    then obtain rest where rest: "c # cs = old @ rest"
      by (auto simp: prefix_def)
    have "replace old new (c # cs) = new @ replace old new rest"
      using replace_match[OF assms, of new rest] rest by simp
    then have "prefix p (new @ replace old new rest)"
      using Cons.prems by simp
    then have "prefix p new \<or> prefix new p"
      by (auto simp: prefix_append)
    then show ?thesis
      by (cases "p = []") auto
  next
    case False
    then have r: "replace old new (c # cs) = c # replace old new cs"
      using replace_step[OF assms] by blast
    show ?thesis
    proof (cases p)
      case Nil
      then show ?thesis by simp
    next
      case (Cons x p')
      then have x: "x = c" and p': "prefix p' (replace old new cs)"
        using Cons.prems r by simp_all
      from Cons.IH[OF p'] show ?thesis
      proof
        assume "prefix p' cs"
        then show ?thesis using Cons x by simp
      next
        assume "\<exists>a b. p' = a @ b \<and> b \<noteq> [] \<and> (prefix new b \<or> prefix b new)"
        then obtain a b where "p' = a @ b" "b \<noteq> []" "prefix new b \<or> prefix b new"
          by blast
        then have "p = (x # a) @ b \<and> b \<noteq> [] \<and> (prefix new b \<or> prefix b new)"
          using Cons by simp
        then show ?thesis by blast
      qed
    qed
  qed
qed

text \<open>A value without brackets that lies inside a token lies inside its name.\<close>

lemma sublist_token_inner:
  assumes "bracket_free v" and "v \<noteq> []" and "sublist v (token k)"
  shows "sublist v k"
proof -
  have hd: "hd v \<noteq> CHR ''[''" and lst: "last v \<noteq> CHR '']''"
    using assms(1,2) by (auto simp: bracket_free_def dest: hd_in_set last_in_set)
  have np: "\<not> prefix v (CHR ''['' # xs)" for xs
    using hd assms(2) by (cases v) auto
  have ns: "\<not> suffix v (xs @ [CHR '']''])" for xs
  proof
    assume "suffix v (xs @ [CHR '']''])"
    then obtain zs where "xs @ [CHR '']''] = zs @ v"
      by (auto simp: suffix_def)
    then have "last (xs @ [CHR '']'']) = last (zs @ v)"
      by simp
    then show False
      using lst assms(2) by simp
  qed
  have "sublist v (CHR ''['' # CHR ''['' # k @ '']]'')"
    using assms(3) by (simp add: token_Cons)
  then have "sublist v (CHR ''['' # k @ '']]'')"
    using np sublist_Cons_right[of v "CHR ''[''" "CHR ''['' # k @ '']]''"] by blast
  then have "sublist v (k @ '']]'')"
    using np sublist_Cons_right[of v "CHR ''[''" "k @ '']]''"] by blast
  then have "sublist v ((k @ [CHR '']'']) @ [CHR '']''])"
    by simp
  then have "sublist v (k @ [CHR '']''])"
    using ns[of "k @ [CHR '']'']"] sublist_snoc[of v "k @ [CHR '']'']" "CHR '']''"] by blast
  then show ?thesis
    using ns[of k] sublist_snoc[of v k "CHR '']''"] by blast
qed

lemma token_no_value_inside:
  assumes "bracket_free k" and "bracket_free v" and "\<not> sublist v k"
    and "token k = a @ b" and "b \<noteq> []" and "prefix v b \<or> prefix b v"
  shows False
  using assms(6)
proof
  assume "prefix v b"
  then obtain r where "b = v @ r"
    by (auto simp: prefix_def)
  then have "token k = a @ v @ r"
    using assms(4) by simp
  then have "sublist v (token k)"
    unfolding sublist_def by blast
  moreover have "v \<noteq> []"
    using assms(3) by auto
  ultimately show False
    using sublist_token_inner[OF assms(2)] assms(3) by blast
next
  assume "prefix b v"
  then have "set b \<subseteq> set v"
    by (rule set_mono_prefix)
  moreover have "last (token k) = last b"
    using assms(4,5) by simp
  moreover have "last (token k) = CHR '']''"
    by (simp add: token_Cons)
  moreover have "last b \<in> set b"
    using assms(5) by simp
  ultimately have "CHR '']'' \<in> set v"
    by auto
  then show False
    using assms(2) by (simp add: bracket_free_def)
qed

lemma token_prefix_replace:
  assumes "bracket_free k" and "bracket_free v" and "\<not> sublist v k" and "old \<noteq> []"
    and "prefix (token k) (replace old v s)"
  shows "prefix (token k) s"
  using prefix_replace_cases[OF assms(4,5)] token_no_value_inside[OF assms(1-3)]
  by blast


text \<open>Two replacements of tokens commute when neither value can complete the other token.\<close>

lemma replace_commute:
  assumes "bracket_free k1" and "bracket_free k2" and "k1 \<noteq> k2"
    and "bracket_free v1" and "bracket_free v2"
    and "\<not> sublist v1 k2" and "\<not> sublist v2 k1"
  shows "replace (token k1) v1 (replace (token k2) v2 s) =
         replace (token k2) v2 (replace (token k1) v1 s)"
proof (induction s rule: length_induct)
  case (1 s)
  have hd1: "hd (token k2) \<notin> set v1" and hd2: "hd (token k1) \<notin> set v2"
    using assms(4,5) by (simp_all add: token_Cons bracket_free_def)
  show ?case
  proof (cases "prefix (token k1) s")
    case True
    then obtain rest where rest: "s = token k1 @ rest"
      by (auto simp: prefix_def)
    have n2: "\<not> prefix (token k2) (token k1 @ rest)"
      using token_prefix_same[of k2 k1 rest] assms(1-3) by blast
    have ih: "replace (token k1) v1 (replace (token k2) v2 rest) =
              replace (token k2) v2 (replace (token k1) v1 rest)"
      using "1.IH" rest token_nonempty[of k1] by simp
    have "replace (token k1) v1 (replace (token k2) v2 s) =
          v1 @ replace (token k1) v1 (replace (token k2) v2 rest)"
      using replace_over_token[OF assms(1) n2, of v2] rest
        replace_match[OF token_nonempty, of k1 v1 "replace (token k2) v2 rest"]
      by simp
    moreover have "replace (token k2) v2 (replace (token k1) v1 s) =
          v1 @ replace (token k2) v2 (replace (token k1) v1 rest)"
      using replace_match[OF token_nonempty, of k1 v1 rest] rest
        replace_skip[OF token_nonempty hd1, of v2 "replace (token k1) v1 rest"]
      by simp
    ultimately show ?thesis
      using ih by simp
  next
    case n1: False
    show ?thesis
    proof (cases "prefix (token k2) s")
      case True
      then obtain rest where rest: "s = token k2 @ rest"
        by (auto simp: prefix_def)
      have n1': "\<not> prefix (token k1) (token k2 @ rest)"
        using n1 rest by simp
      have ih: "replace (token k1) v1 (replace (token k2) v2 rest) =
                replace (token k2) v2 (replace (token k1) v1 rest)"
        using "1.IH" rest token_nonempty[of k2] by simp
      have "replace (token k2) v2 (replace (token k1) v1 s) =
            v2 @ replace (token k2) v2 (replace (token k1) v1 rest)"
        using replace_over_token[OF assms(2) n1', of v1] rest
          replace_match[OF token_nonempty, of k2 v2 "replace (token k1) v1 rest"]
        by simp
      moreover have "replace (token k1) v1 (replace (token k2) v2 s) =
            v2 @ replace (token k1) v1 (replace (token k2) v2 rest)"
        using replace_match[OF token_nonempty, of k2 v2 rest] rest
          replace_skip[OF token_nonempty hd2, of v1 "replace (token k2) v2 rest"]
        by simp
      ultimately show ?thesis
        using ih by simp
    next
      case n2: False
      show ?thesis
      proof (cases s)
        case Nil
        then show ?thesis
          by (simp add: replace_Nil[OF token_nonempty])
      next
        case (Cons c cs)
        have r2: "replace (token k2) v2 s = c # replace (token k2) v2 cs"
          using n2 Cons replace_step[OF token_nonempty] by simp
        have r1: "replace (token k1) v1 s = c # replace (token k1) v1 cs"
          using n1 Cons replace_step[OF token_nonempty] by simp
        have m1: "\<not> prefix (token k1) (c # replace (token k2) v2 cs)"
          using token_prefix_replace[OF assms(1,5,7) token_nonempty, of k2 s] n1 r2 by auto
        have m2: "\<not> prefix (token k2) (c # replace (token k1) v1 cs)"
          using token_prefix_replace[OF assms(2,4,6) token_nonempty, of k1 s] n2 r1 by auto
        have ih: "replace (token k1) v1 (replace (token k2) v2 cs) =
                  replace (token k2) v2 (replace (token k1) v1 cs)"
          using "1.IH" Cons by simp
        show ?thesis
          using r1 r2 ih replace_step[OF token_nonempty m1] replace_step[OF token_nonempty m2]
          by simp
      qed
    qed
  qed
qed

lemma substitute_fold:
  "substitute vars content = fold (\<lambda>(k, v). replace (token k) v) vars content"
  by (induction vars arbitrary: content) auto


text \<open>
  Two distinct names without brackets, neither inside the other, whose replacements do not
  commute: the value of \<open>A\<close> is the token of \<open>B\<close>, so \<open>B\<close> is replaced in it only when
  \<open>A\<close> is handled first.
\<close>

theorem substitute_order_matters:
  "distinct (map fst [(''A'', ''[[B]]''), (''B'', ''x'')]) \<and>
   bracket_free ''A'' \<and> bracket_free ''B'' \<and>
   \<not> sublist ''A'' ''B'' \<and> \<not> sublist ''B'' ''A'' \<and>
   substitute [(''A'', ''[[B]]''), (''B'', ''x'')] ''[[A]]'' = ''x'' \<and>
   substitute [(''B'', ''x''), (''A'', ''[[B]]'')] ''[[A]]'' = ''[[B]]''"
  by (simp add: token_def replace.simps bracket_free_def sublist_code)

text \<open>
  Claim C9, amended. For variables with distinct names, where no name and no value contains a
  square bracket and no value occurs inside the name of another variable, every order of
  the variables gives the same rendered text.
\<close>

theorem substitute_order_independent:
  assumes "mset vars' = mset vars"
    and "distinct (map fst vars)"
    and "\<forall>(k, v) \<in> set vars. bracket_free k \<and> bracket_free v"
    and "\<forall>(k, v) \<in> set vars. \<forall>(k', v') \<in> set vars. k \<noteq> k' \<longrightarrow> \<not> sublist v k'"
  shows "substitute vars' content = substitute vars content"
proof -
  let ?f = "\<lambda>(k, v). replace (token k) v"
  have comm: "?f x \<circ> ?f y = ?f y \<circ> ?f x" if "x \<in> set vars" "y \<in> set vars" for x y
  proof (cases "x = y")
    case True
    then show ?thesis by simp
  next
    case False
    obtain k1 v1 k2 v2 where xy: "x = (k1, v1)" "y = (k2, v2)"
      by (cases x, cases y) auto
    have ne: "k1 \<noteq> k2"
      using False that xy assms(2) by (metis distinct_map inj_onD fst_conv)
    have bf: "bracket_free k1" "bracket_free v1" "bracket_free k2" "bracket_free v2"
      using assms(3) that xy by auto
    have ns: "\<not> sublist v1 k2" "\<not> sublist v2 k1"
      using assms(4) that xy ne by auto
    have "replace (token k1) v1 (replace (token k2) v2 s) =
          replace (token k2) v2 (replace (token k1) v1 s)" for s
      using replace_commute[OF bf(1) bf(3) ne bf(2) bf(4) ns] by simp
    then show ?thesis
      using xy by (simp add: fun_eq_iff)
  qed
  have "fold ?f vars = fold ?f vars'"
    using fold_multiset_equiv[of vars ?f vars'] comm assms(1) by metis
  then show ?thesis
    by (simp add: substitute_fold)
qed

theorem substitute_order_independent_witness:
  "mset [(''CHALLENGE_YEAR'', ''2023''), (''CHALLENGE_DAY'', ''1'')] =
   mset [(''CHALLENGE_DAY'', ''1''), (''CHALLENGE_YEAR'', ''2023'')] \<and>
   substitute [(''CHALLENGE_YEAR'', ''2023''), (''CHALLENGE_DAY'', ''1'')]
     ''day [[CHALLENGE_DAY]] of [[CHALLENGE_YEAR]]'' = ''day 1 of 2023'' \<and>
   substitute [(''CHALLENGE_DAY'', ''1''), (''CHALLENGE_YEAR'', ''2023'')]
     ''day [[CHALLENGE_DAY]] of [[CHALLENGE_YEAR]]'' = ''day 1 of 2023''"
proof -
  have m: "mset [(''CHALLENGE_YEAR'', ''2023''), (''CHALLENGE_DAY'', ''1'')] =
           mset [(''CHALLENGE_DAY'', ''1''), (''CHALLENGE_YEAR'', ''2023'')]"
    by simp
  have d: "distinct (map fst [(''CHALLENGE_DAY'', ''1''), (''CHALLENGE_YEAR'', ''2023'')])"
    by simp
  have b: "\<forall>(k, v) \<in> set [(''CHALLENGE_DAY'', ''1''), (''CHALLENGE_YEAR'', ''2023'')].
             bracket_free k \<and> bracket_free v"
    by (simp add: bracket_free_def)
  have n: "\<forall>(k, v) \<in> set [(''CHALLENGE_DAY'', ''1''), (''CHALLENGE_YEAR'', ''2023'')].
           \<forall>(k', v') \<in> set [(''CHALLENGE_DAY'', ''1''), (''CHALLENGE_YEAR'', ''2023'')].
             k \<noteq> k' \<longrightarrow> \<not> sublist v k'"
    by (simp add: sublist_code)
  have s: "substitute [(''CHALLENGE_DAY'', ''1''), (''CHALLENGE_YEAR'', ''2023'')]
     ''day [[CHALLENGE_DAY]] of [[CHALLENGE_YEAR]]'' = ''day 1 of 2023''"
    by (simp add: token_def replace.simps)
  show ?thesis
    using m s substitute_order_independent[OF m d b n, of "''day [[CHALLENGE_DAY]] of [[CHALLENGE_YEAR]]''"]
    by simp
qed


section \<open>Occurrences and segments\<close>

lemma join_Cons: "segs \<noteq> [] \<Longrightarrow> join sep (seg # segs) = seg @ sep @ join sep segs"
  by (cases segs) simp_all

lemma join_Cons_Cons: "join sep ((c # seg) # segs) = c # join sep (seg # segs)"
  by (cases segs) simp_all

lemma occurrences_append_ge: "occurrences tok b \<le> occurrences tok (a @ b)"
  by (induction a) auto

lemma occurrences_match_ge:
  assumes "tok \<noteq> []"
  shows "Suc (occurrences tok r) \<le> occurrences tok (tok @ r)"
proof -
  obtain t ts where t: "tok = t # ts"
    using assms by (cases tok) auto
  have "occurrences tok (tok @ r) = 1 + occurrences tok (ts @ r)"
    using t by simp
  then show ?thesis
    using occurrences_append_ge[of tok r ts] by simp
qed

lemma replace_no_occurrence:
  assumes "old \<noteq> []"
  shows "occurrences old (a @ b) = occurrences old b \<Longrightarrow>
         replace old new (a @ b) = a @ replace old new b"
proof (induction a)
  case Nil
  then show ?case by simp
next
  case (Cons c a)
  have ge: "occurrences old b \<le> occurrences old (a @ b)"
    by (rule occurrences_append_ge)
  have "occurrences old ((c # a) @ b) =
        (if prefix old (c # a @ b) then 1 else 0) + occurrences old (a @ b)"
    by simp
  then have n: "\<not> prefix old (c # a @ b)" and e: "occurrences old (a @ b) = occurrences old b"
    using Cons.prems ge by (auto split: if_splits)
  show ?case
    using Cons.IH[OF e] replace_step[OF assms n] by simp
qed

lemma occurrences_join_ge:
  assumes "tok \<noteq> []"
  shows "segs \<noteq> [] \<Longrightarrow> length segs - 1 \<le> occurrences tok (join tok segs)"
proof (induction segs)
  case Nil
  then show ?case by simp
next
  case (Cons seg segs)
  show ?case
  proof (cases segs)
    case Nil
    then show ?thesis by simp
  next
    case c: (Cons x xs)
    then have ih: "length segs - 1 \<le> occurrences tok (join tok segs)"
      using Cons.IH by simp
    have "Suc (occurrences tok (join tok segs)) \<le> occurrences tok (tok @ join tok segs)"
      by (rule occurrences_match_ge[OF assms])
    also have "\<dots> \<le> occurrences tok (seg @ tok @ join tok segs)"
      by (rule occurrences_append_ge)
    finally show ?thesis
      using ih c by (simp add: join_Cons)
  qed
qed

lemma replace_join:
  assumes "old \<noteq> []"
  shows "segs \<noteq> [] \<Longrightarrow> occurrences old (join old segs) = length segs - 1 \<Longrightarrow>
         replace old new (join old segs) = join new segs"
proof (induction segs)
  case Nil
  then show ?case by simp
next
  case (Cons seg segs)
  show ?case
  proof (cases segs)
    case Nil
    have "occurrences old (seg @ []) = occurrences old []"
      using Cons.prems Nil assms by simp
    then have "replace old new (seg @ []) = seg @ replace old new []"
      by (rule replace_no_occurrence[OF assms])
    then show ?thesis
      using Nil by (simp add: replace_Nil[OF assms])
  next
    case c: (Cons x xs)
    let ?J = "join old segs"
    have j: "join old (seg # segs) = seg @ old @ ?J" "join new (seg # segs) = seg @ new @ join new segs"
      using c by (simp_all add: join_Cons)
    have 1: "length segs - 1 \<le> occurrences old ?J"
      using occurrences_join_ge[OF assms, of segs] c by simp
    have 2: "Suc (occurrences old ?J) \<le> occurrences old (old @ ?J)"
      by (rule occurrences_match_ge[OF assms])
    have 3: "occurrences old (old @ ?J) \<le> occurrences old (seg @ old @ ?J)"
      by (rule occurrences_append_ge)
    have 4: "occurrences old (seg @ old @ ?J) = length segs"
      using Cons.prems(2) j by simp
    have e1: "occurrences old (seg @ old @ ?J) = occurrences old (old @ ?J)"
      and e2: "occurrences old ?J = length segs - 1"
      using 1 2 3 4 c by simp_all
    have "replace old new (seg @ old @ ?J) = seg @ replace old new (old @ ?J)"
      by (rule replace_no_occurrence[OF assms e1])
    also have "\<dots> = seg @ new @ replace old new ?J"
      by (simp add: replace_match[OF assms])
    also have "replace old new ?J = join new segs"
      using Cons.IH e2 c by simp
    finally show ?thesis
      using j by simp
  qed
qed

text \<open>The result of replacing the token of a name holds no occurrence of that token.\<close>

lemma occurrences_replace_zero:
  assumes "bracket_free k" and "bracket_free v" and "\<not> sublist v k"
  shows "occurrences (token k) (replace (token k) v s) = 0"
proof (induction s rule: length_induct)
  case (1 s)
  show ?case
  proof (cases "prefix (token k) s")
    case True
    then obtain rest where rest: "s = token k @ rest"
      by (auto simp: prefix_def)
    have ih: "occurrences (token k) (replace (token k) v rest) = 0"
      using "1.IH" rest token_nonempty[of k] by simp
    have "hd (token k) \<notin> set v"
      using assms(2) by (simp add: token_Cons bracket_free_def)
    then have "occurrences (token k) (v @ replace (token k) v rest) =
               occurrences (token k) (replace (token k) v rest)"
      by (rule occurrences_skip[OF token_nonempty])
    then show ?thesis
      using ih rest replace_match[OF token_nonempty, of k v rest] by simp
  next
    case False
    show ?thesis
    proof (cases s)
      case Nil
      then show ?thesis
        using token_nonempty[of k] by (simp add: replace_Nil)
    next
      case (Cons c cs)
      have r: "replace (token k) v s = c # replace (token k) v cs"
        using False Cons replace_step[OF token_nonempty] by simp
      have "\<not> prefix (token k) (replace (token k) v s)"
        using token_prefix_replace[OF assms token_nonempty, of k s] False by blast
      moreover have "occurrences (token k) (replace (token k) v cs) = 0"
        using "1.IH" Cons by simp
      ultimately show ?thesis
        using r by simp
    qed
  qed
qed

text \<open>A text splits at the occurrences of a token; replacing joins the same segments with the value.\<close>

lemma segments_exist:
  assumes "bracket_free k"
  shows "\<exists>segs. length segs = occurrences (token k) s + 1 \<and> s = join (token k) segs \<and>
           replace (token k) v s = join v segs"
proof (induction s rule: length_induct)
  case (1 s)
  show ?case
  proof (cases "prefix (token k) s")
    case True
    then obtain rest where rest: "s = token k @ rest"
      by (auto simp: prefix_def)
    obtain segs where segs: "length segs = occurrences (token k) rest + 1"
        "rest = join (token k) segs" "replace (token k) v rest = join v segs"
      using "1.IH" rest token_nonempty[of k] by (metis length_append less_add_same_cancel2 length_greater_0_conv)
    have ne: "segs \<noteq> []"
      using segs(1) by auto
    have "occurrences (token k) s = 1 + occurrences (token k) rest"
      using occurrences_over_token[OF assms, of k rest] rest by simp
    then have "length ([] # segs) = occurrences (token k) s + 1"
      using segs(1) by simp
    moreover have "s = join (token k) ([] # segs)"
      using rest segs(2) ne by (simp add: join_Cons)
    moreover have "replace (token k) v s = join v ([] # segs)"
      using rest segs(3) ne replace_match[OF token_nonempty, of k v rest] by (simp add: join_Cons)
    ultimately show ?thesis
      by blast
  next
    case False
    show ?thesis
    proof (cases s)
      case Nil
      have "length [[]::string] = occurrences (token k) [] + 1 \<and> [] = join (token k) [[]] \<and>
            replace (token k) v [] = join v [[]]"
        using token_nonempty[of k] by (simp add: replace_Nil)
      then show ?thesis
        using Nil by blast
    next
      case (Cons c cs)
      obtain segs where segs: "length segs = occurrences (token k) cs + 1"
          "cs = join (token k) segs" "replace (token k) v cs = join v segs"
        using "1.IH" Cons by auto
      then obtain g gs where g: "segs = g # gs"
        by (cases segs) auto
      have "length ((c # g) # gs) = occurrences (token k) s + 1"
        using segs(1) g False Cons by simp
      moreover have "s = join (token k) ((c # g) # gs)"
        using segs(2) g Cons by (simp add: join_Cons_Cons)
      moreover have "replace (token k) v s = join v ((c # g) # gs)"
        using segs(3) g Cons False replace_step[OF token_nonempty, of k c cs v]
        by (simp add: join_Cons_Cons)
      ultimately show ?thesis
        by blast
    qed
  qed
qed


text \<open>
  Claim C2. When the template content holds exactly \<open>N\<close> occurrences of the token
  \<open>[[X]]\<close> and the variables map \<open>X\<close> to \<open>5\<close>, the rendered text holds no occurrence
  of \<open>[[X]]\<close>; the content is \<open>N + 1\<close> segments joined by the token, and however it is
  written that way, the rendered text is the same segments joined by \<open>5\<close>: every
  occurrence is replaced, each at its place.
\<close>

theorem substitution_totality:
  assumes "occurrences (token ''X'') content = N"
  shows "occurrences (token ''X'') (substitute [(''X'', ''5'')] content) = 0 \<and>
         (\<exists>segs. length segs = N + 1 \<and> content = join (token ''X'') segs \<and>
                 substitute [(''X'', ''5'')] content = join ''5'' segs) \<and>
         (\<forall>segs. length segs = N + 1 \<and> content = join (token ''X'') segs \<longrightarrow>
                 substitute [(''X'', ''5'')] content = join ''5'' segs)"
proof -
  have k: "bracket_free ''X''" and v: "bracket_free ''5''" and n: "\<not> sublist ''5'' ''X''"
    by (simp_all add: bracket_free_def sublist_code)
  have z: "occurrences (token ''X'') (substitute [(''X'', ''5'')] content) = 0"
    using occurrences_replace_zero[OF k v n, of content] by simp
  have e: "\<exists>segs. length segs = N + 1 \<and> content = join (token ''X'') segs \<and>
                 substitute [(''X'', ''5'')] content = join ''5'' segs"
    using segments_exist[OF k, of content "''5''"] assms by simp
  have u: "substitute [(''X'', ''5'')] content = join ''5'' segs"
    if "length segs = N + 1" "content = join (token ''X'') segs" for segs
  proof -
    have "segs \<noteq> []"
      using that(1) by auto
    moreover have "occurrences (token ''X'') (join (token ''X'') segs) = length segs - 1"
      using that assms by simp
    ultimately have "replace (token ''X'') ''5'' (join (token ''X'') segs) = join ''5'' segs"
      by (rule replace_join[OF token_nonempty])
    then show ?thesis
      using that(2) by simp
  qed
  show ?thesis
    using z e u by blast
qed

theorem substitution_totality_witness:
  "occurrences (token ''X'') ''a[[X]]b[[X]]c'' = 2 \<and>
   ''a[[X]]b[[X]]c'' = join (token ''X'') [''a'', ''b'', ''c''] \<and>
   substitute [(''X'', ''5'')] ''a[[X]]b[[X]]c'' = ''a5b5c'' \<and>
   occurrences (token ''X'') (substitute [(''X'', ''5'')] ''a[[X]]b[[X]]c'') = 0"
proof -
  have o: "occurrences (token ''X'') ''a[[X]]b[[X]]c'' = 2"
    by (simp add: token_def)
  have j: "''a[[X]]b[[X]]c'' = join (token ''X'') [''a'', ''b'', ''c'']"
    by (simp add: token_def)
  have l: "length [''a'', ''b'', ''c''] = 2 + 1"
    by simp
  note t = substitution_totality[OF o]
  have z: "occurrences (token ''X'') (substitute [(''X'', ''5'')] ''a[[X]]b[[X]]c'') = 0"
    using t by (rule conjunct1)
  have "\<forall>segs. length segs = 2 + 1 \<and> ''a[[X]]b[[X]]c'' = join (token ''X'') segs \<longrightarrow>
                 substitute [(''X'', ''5'')] ''a[[X]]b[[X]]c'' = join ''5'' segs"
    using t by (rule conjunct2 [THEN conjunct2])
  then have "substitute [(''X'', ''5'')] ''a[[X]]b[[X]]c'' = join ''5'' [''a'', ''b'', ''c'']"
    using j l by blast
  then have s: "substitute [(''X'', ''5'')] ''a[[X]]b[[X]]c'' = ''a5b5c''"
    by simp
  show ?thesis
    using o j z s by blast
qed

section \<open>Tokens of delimited names\<close>

lemma bracket_free_delimited: "bracket_free k \<Longrightarrow> delimited k"
proof -
  assume b: "bracket_free k"
  have "\<not> sublist ''[['' k" "\<not> sublist '']]'' k"
    using b set_mono_sublist[of "''[[''" k] set_mono_sublist[of "'']]''" k]
    by (auto simp: bracket_free_def)
  moreover have "\<not> prefix ''[['' (CHR ''['' # k)"
    using b by (cases k) (auto simp: bracket_free_def)
  moreover have "\<not> suffix '']]'' (k @ '']'')"
    using b by (cases k rule: rev_cases) (auto simp: bracket_free_def suffix_def Cons_eq_append_conv)
  ultimately show ?thesis
    using sublist_snoc[of "'']]''" k "CHR '']''"]
    by (simp add: delimited_def sublist_Cons_right)
qed

text \<open>After its first character, the token of a delimited name holds no \<open>[[\<close>.\<close>

lemma open_only_at_start:
  assumes "\<not> sublist ''[['' (CHR ''['' # k)"
    and "CHR ''['' # k @ '']]'' = xs @ ys" and "ys \<noteq> []"
  shows "\<not> prefix ''[['' (ys @ r)"
proof -
  have "(CHR ''['' # k) @ '']]'' = xs @ ys"
    using assms(2) by simp
  then obtain us where
    "(CHR ''['' # k = xs @ us \<and> us @ '']]'' = ys) \<or> ((CHR ''['' # k) @ us = xs \<and> '']]'' = us @ ys)"
    unfolding append_eq_append_conv2 by blast
  then show ?thesis
  proof
    assume a: "CHR ''['' # k = xs @ us \<and> us @ '']]'' = ys"
    show ?thesis
    proof
      assume p: "prefix ''[['' (ys @ r)"
      show False
      proof (cases us)
        case Nil
        then show False using a p by auto
      next
        case c: (Cons c us1)
        show False
        proof (cases us1)
          case Nil
          then show False using a p c by auto
        next
          case (Cons d us2)
          then have "us = ''[['' @ us2"
            using a p c by auto
          then have "CHR ''['' # k = xs @ ''[['' @ us2"
            using a by simp
          then have "sublist ''[['' (CHR ''['' # k)"
            unfolding sublist_def by blast
          then show False using assms(1) by simp
        qed
      qed
    qed
  next
    assume a: "(CHR ''['' # k) @ us = xs \<and> '']]'' = us @ ys"
    then have "hd ys = CHR '']''"
      using assms(3) by (cases us; cases ys) (auto simp: Cons_eq_append_conv)
    then show ?thesis
      using assms(3) by (cases ys) auto
  qed
qed

lemma token_suffix_no_token:
  assumes "delimited k" and "token k = xs @ ys" and "xs \<noteq> []" and "ys \<noteq> []"
  shows "\<not> prefix (token k') (ys @ r)"
proof
  assume p: "prefix (token k') (ys @ r)"
  obtain xs' where xs: "xs = CHR ''['' # xs'"
    using assms(2,3) by (cases xs) (auto simp: token_Cons)
  then have "CHR ''['' # k @ '']]'' = xs' @ ys"
    using assms(2) by (simp add: token_Cons)
  then have "\<not> prefix ''[['' (ys @ r)"
    using open_only_at_start[of k xs' ys r] assms(1,4) by (simp add: delimited_def)
  moreover have "prefix ''[['' (ys @ r)"
    using p append_prefixD[of "''[[''" "k' @ '']]''" "ys @ r"] by (simp add: token_def)
  ultimately show False by simp
qed

lemma replace_skip_gen:
  assumes "old \<noteq> []"
  shows "(\<And>xs ys. a = xs @ ys \<Longrightarrow> ys \<noteq> [] \<Longrightarrow> \<not> prefix old (ys @ b)) \<Longrightarrow>
         replace old new (a @ b) = a @ replace old new b"
proof (induction a)
  case Nil
  then show ?case by simp
next
  case (Cons c a)
  have n: "\<not> prefix old (c # a @ b)"
    using Cons.prems[of "[]" "c # a"] by simp
  have "replace old new (a @ b) = a @ replace old new b"
  proof (rule Cons.IH)
    fix xs ys
    assume "a = xs @ ys" "ys \<noteq> []"
    then show "\<not> prefix old (ys @ b)"
      using Cons.prems[of "c # xs" ys] by simp
  qed
  then show ?case
    using replace_step[OF assms n] by simp
qed

lemma replace_over_token_delimited:
  assumes "delimited k" and "\<not> prefix (token k') (token k @ r)"
  shows "replace (token k') v (token k @ r) = token k @ replace (token k') v r"
proof (rule replace_skip_gen[OF token_nonempty])
  fix xs ys
  assume s: "token k = xs @ ys" "ys \<noteq> []"
  show "\<not> prefix (token k') (ys @ r)"
  proof (cases xs)
    case Nil
    then show ?thesis using s assms(2) by simp
  next
    case (Cons c cs)
    then show ?thesis
      using token_suffix_no_token[OF assms(1) s(1) _ s(2)] by simp
  qed
qed

text \<open>Two tokens of delimited names that start at the same position are the same.\<close>

lemma close_unique:
  "\<not> sublist '']]'' (k @ '']'') \<Longrightarrow> \<not> sublist '']]'' (k' @ '']'') \<Longrightarrow>
   prefix (k @ '']]'') (k' @ '']]'' @ r) \<Longrightarrow> k = k'"
proof (induction k arbitrary: k')
  case Nil
  show ?case
  proof (cases k')
    case Nil
    then show ?thesis by simp
  next
    case (Cons c k2)
    then have "prefix '']]'' (k' @ '']'')"
      using Nil.prems(3) by (cases k2) auto
    then show ?thesis
      using Nil.prems(2) prefix_imp_sublist by blast
  qed
next
  case (Cons c k)
  show ?case
  proof (cases k')
    case Nil
    then have "prefix '']]'' ((c # k) @ '']'')"
      using Cons.prems(3) by (cases k) auto
    then show ?thesis
      using Cons.prems(1) prefix_imp_sublist by blast
  next
    case k': (Cons c' k2)
    have 1: "\<not> sublist '']]'' (k @ '']'')"
      using Cons.prems(1) by (simp add: sublist_Cons_right)
    have 2: "\<not> sublist '']]'' (k2 @ '']'')"
      using Cons.prems(2) k' by (simp add: sublist_Cons_right)
    have "c = c'" and "prefix (k @ '']]'') (k2 @ '']]'' @ r)"
      using Cons.prems(3) k' by simp_all
    then show ?thesis
      using Cons.IH[OF 1 2] k' by simp
  qed
qed

lemma token_prefix_same_delimited:
  "delimited k \<Longrightarrow> delimited k' \<Longrightarrow> prefix (token k) (token k' @ r) \<Longrightarrow> k = k'"
  using close_unique[of k k' r] by (simp add: token_Cons delimited_def)

lemma token_straddle_delimited:
  assumes "delimited k" and "delimited K" and "k \<noteq> K"
    and "prefix (token k) (a @ token K @ b)"
  shows "prefix (token k) a"
proof (rule ccontr)
  assume n: "\<not> prefix (token k) a"
  with assms(4) obtain us where us: "token k = a @ us" "prefix us (token K @ b)"
    by (auto simp: prefix_append)
  have ne: "us \<noteq> []"
    using n us(1) by auto
  obtain r where r: "us @ r = token K @ b"
    using us(2) by (auto simp: prefix_def)
  show False
  proof (cases a)
    case Nil
    then show False
      using us assms(1-3) token_prefix_same_delimited[of k K b] by simp
  next
    case (Cons x a1)
    then have "\<not> prefix (token K) (us @ r)"
      using token_suffix_no_token[OF assms(1) us(1) _ ne] by simp
    then show False
      using r by simp
  qed
qed

lemma replace_around_token_delimited:
  assumes "delimited k" and "delimited K" and "k \<noteq> K"
  shows "replace (token k) v (a @ token K @ b) =
         replace (token k) v a @ token K @ replace (token k) v b"
proof (induction a rule: length_induct)
  case (1 a)
  show ?case
  proof (cases "prefix (token k) (a @ token K @ b)")
    case True
    then have "prefix (token k) a"
      using token_straddle_delimited[OF assms] by blast
    then obtain a2 where a2: "a = token k @ a2"
      by (auto simp: prefix_def)
    have "length a2 < length a"
      using a2 token_nonempty[of k] by simp
    then have ih: "replace (token k) v (a2 @ token K @ b) =
                   replace (token k) v a2 @ token K @ replace (token k) v b"
      using "1.IH" by blast
    have "replace (token k) v (a @ token K @ b) =
          v @ replace (token k) v (a2 @ token K @ b)"
      using replace_match[OF token_nonempty, of k v "a2 @ token K @ b"] a2 by simp
    moreover have "replace (token k) v a = v @ replace (token k) v a2"
      using replace_match[OF token_nonempty, of k v a2] a2 by simp
    ultimately show ?thesis
      using ih by simp
  next
    case False
    show ?thesis
    proof (cases a)
      case Nil
      then show ?thesis
        using False replace_over_token_delimited[OF assms(2), of k b v]
        by (simp add: replace_Nil[OF token_nonempty])
    next
      case (Cons c a')
      have n: "\<not> prefix (token k) (c # a')"
        using False Cons prefix_prefix by blast
      have ih: "replace (token k) v (a' @ token K @ b) =
                replace (token k) v a' @ token K @ replace (token k) v b"
        using "1.IH" Cons by simp
      have "replace (token k) v (a @ token K @ b) =
            c # replace (token k) v (a' @ token K @ b)"
        using False Cons replace_step[OF token_nonempty, of k c "a' @ token K @ b" v] by simp
      moreover have "replace (token k) v a = c # replace (token k) v a'"
        using n Cons replace_step[OF token_nonempty, of k c a' v] by simp
      ultimately show ?thesis
        using ih by simp
    qed
  qed
qed

lemma substitute_around_token_delimited:
  assumes "delimited K"
    and "\<forall>(k, v) \<in> set vars. delimited k \<and> k \<noteq> K"
  shows "substitute vars (a @ token K @ b) =
         substitute vars a @ token K @ substitute vars b"
  using assms(2)
proof (induction vars arbitrary: a b)
  case Nil
  then show ?case by simp
next
  case (Cons kv vars)
  obtain k v where kv: "kv = (k, v)"
    by (cases kv)
  have "delimited k" "k \<noteq> K"
    using Cons.prems kv by auto
  then have "replace (token k) v (a @ token K @ b) =
             replace (token k) v a @ token K @ replace (token k) v b"
    using replace_around_token_delimited[OF _ assms(1)] by blast
  then show ?case
    using Cons kv by simp
qed

text \<open>
  A token whose name is not a variable, rewritten all the same: the variable \<open>a]\<close> has the
  token \<open>[[a]]]\<close>, which covers the token \<open>[[a]]\<close> of the unknown name \<open>a\<close>.
\<close>

theorem unknown_token_overlapped:
  "''a'' \<notin> fst ` set [(''a]'', ''v'')] \<and>
   \<not> sublist ''[['' ''a]'' \<and> \<not> sublist '']]'' ''a]'' \<and>
   ''[[a]]]'' = [] @ token ''a'' @ '']'' \<and>
   occurrences (token ''a'') ''[[a]]]'' = 1 \<and>
   substitute [(''a]'', ''v'')] ''[[a]]]'' = ''v'' \<and>
   occurrences (token ''a'') (substitute [(''a]'', ''v'')] ''[[a]]]'') = 0"
  by (simp add: token_def replace.simps sublist_code)

text \<open>Whether a file can be written does not depend on what is written.\<close>

lemma open_write_content:
  "open_write f p c = Inr f' \<Longrightarrow> open_write f p c' = Inr (f(p \<mapsto> File c'))"
  by (auto simp: open_write_def split: if_splits option.splits)

text \<open>
  Claim C3, amended. When every variable name is delimited by its token, a token \<open>[[K]]\<close>
  whose name \<open>K\<close> is delimited too and is not a variable stays where it is: the text before
  it and the text after it are rendered on their own. For every template content and every
  choice of variables, used or not, rendering raises no error of its own: when the template
  can be read and the output file can be written, \<open>generate_starter_code\<close> returns the
  output path and writes the substituted content.
\<close>

theorem unknown_token_passthrough:
  "(delimited K \<and> (\<forall>(k, v) \<in> set template_vars. delimited k \<and> k \<noteq> K) \<longrightarrow>
      substitute template_vars (a @ token K @ b) =
        substitute template_vars a @ token K @ substitute template_vars b) \<and>
   (open_read (fs w) template_path = Inr template_content \<and>
    open_write (fs w) (starter_code_file_path template_path tdir) [] = Inr f0 \<longrightarrow>
      fst (generate_starter_code template_path tdir template_vars w) =
        Inr (starter_code_file_path template_path tdir) \<and>
      fs (snd (generate_starter_code template_path tdir template_vars w))
        (starter_code_file_path template_path tdir) =
        Some (File (substitute template_vars template_content)))"
proof -
  have s: "substitute template_vars (a @ token K @ b) =
           substitute template_vars a @ token K @ substitute template_vars b"
    if "delimited K" "\<forall>(k, v) \<in> set template_vars. delimited k \<and> k \<noteq> K"
    using that by (rule substitute_around_token_delimited)
  have g: "fst (generate_starter_code template_path tdir template_vars w) =
             Inr (starter_code_file_path template_path tdir) \<and>
           fs (snd (generate_starter_code template_path tdir template_vars w))
             (starter_code_file_path template_path tdir) =
             Some (File (substitute template_vars template_content))"
    if r: "open_read (fs w) template_path = Inr template_content"
      and o: "open_write (fs w) (starter_code_file_path template_path tdir) [] = Inr f0"
  proof -
    have "open_write (fs w) (starter_code_file_path template_path tdir)
            (substitute template_vars template_content) =
          Inr ((fs w)(starter_code_file_path template_path tdir \<mapsto>
            File (substitute template_vars template_content)))"
      by (rule open_write_content[OF o])
    then show ?thesis
      using r by (simp add: generate_starter_code_def print_out_def Let_def)
  qed
  show ?thesis
    using s g by blast
qed

theorem unknown_token_passthrough_witness:
  "delimited ''UNUSED'' \<and> delimited ''CHALLENGE_DAY'' \<and> delimited ''a[0]b'' \<and>
   substitute [(''CHALLENGE_DAY'', ''1''), (''a[0]b'', ''x'')]
     (''day [[CHALLENGE_DAY]] '' @ token ''UNUSED'' @ '' of [[a[0]b]]'') =
     ''day 1 [[UNUSED]] of x'' \<and>
   fst (generate_starter_code ''/templates/t.txt'' ''/out''
          [(''CHALLENGE_DAY'', ''1''), (''a[0]b'', ''x'')]
          (demo_world (demo_fs(''/templates/t.txt'' \<mapsto> File ''hello [[X]] [[a[[b]]'')))) =
     Inr ''/out/t.txt'' \<and>
   fs (snd (generate_starter_code ''/templates/t.txt'' ''/out''
          [(''CHALLENGE_DAY'', ''1''), (''a[0]b'', ''x'')]
          (demo_world (demo_fs(''/templates/t.txt'' \<mapsto> File ''hello [[X]] [[a[[b]]''))))) ''/out/t.txt'' =
     Some (File ''hello [[X]] [[a[[b]]'')"
proof -
  let ?vars = "[(''CHALLENGE_DAY'', ''1''), (''a[0]b'', ''x'')]"
  let ?v = "demo_world (demo_fs(''/templates/t.txt'' \<mapsto> File ''hello [[X]] [[a[[b]]''))"
  have k: "delimited ''UNUSED''"
    by (simp add: delimited_def sublist_code)
  have kk: "delimited ''CHALLENGE_DAY''" "delimited ''a[0]b''"
    by (simp_all add: delimited_def sublist_code)
  have vs: "\<forall>(k, v) \<in> set ?vars. delimited k \<and> k \<noteq> ''UNUSED''"
    using kk by simp
  have a: "substitute ?vars ''day [[CHALLENGE_DAY]] '' = ''day 1 ''"
    by (simp add: token_def replace.simps)
  have b: "substitute ?vars '' of [[a[0]b]]'' = '' of x''"
    by (simp add: token_def replace.simps)
  have t: "token ''UNUSED'' = ''[[UNUSED]]''"
    by (simp add: token_def)
  have p: "starter_code_file_path ''/templates/t.txt'' ''/out'' = ''/out/t.txt''"
    by (simp add: starter_code_file_path_def endswith_def suffix_def basename_def)
  have c: "''day 1 '' @ ''[[UNUSED]]'' @ '' of x'' = ''day 1 [[UNUSED]] of x''"
    by simp
  have u: "substitute ?vars ''hello [[X]] [[a[[b]]'' = ''hello [[X]] [[a[[b]]''"
    by (simp add: token_def replace.simps)
  note th = unknown_token_passthrough
      [where K = "''UNUSED''" and template_vars = ?vars
         and a = "''day [[CHALLENGE_DAY]] ''" and b = "'' of [[a[0]b]]''"
         and w = ?v and template_path = "''/templates/t.txt''" and tdir = "''/out''"
         and template_content = "''hello [[X]] [[a[[b]]''"
         and ?f0.0 = "(fs ?v)(''/out/t.txt'' \<mapsto> File [])"]
  have r: "open_read (fs ?v) ''/templates/t.txt'' = Inr ''hello [[X]] [[a[[b]]''"
    by (simp add: open_read_def resolve_def dir_prefixes_def demo_world_def demo_fs_def)
  have o: "open_write (fs ?v) (starter_code_file_path ''/templates/t.txt'' ''/out'') [] =
           Inr ((fs ?v)(''/out/t.txt'' \<mapsto> File []))"
    unfolding p
    by (simp add: open_write_def dir_prefixes_def basename_def demo_world_def demo_fs_def)
  have s: "substitute ?vars
     (''day [[CHALLENGE_DAY]] '' @ token ''UNUSED'' @ '' of [[a[0]b]]'') =
     ''day 1 [[UNUSED]] of x''"
    using th [THEN conjunct1, THEN mp, OF conjI [OF k vs]] unfolding a b t c .
  have g: "fst (generate_starter_code ''/templates/t.txt'' ''/out'' ?vars ?v) = Inr ''/out/t.txt'' \<and>
     fs (snd (generate_starter_code ''/templates/t.txt'' ''/out'' ?vars ?v)) ''/out/t.txt'' =
     Some (File ''hello [[X]] [[a[[b]]'')"
    using th [THEN conjunct2, THEN mp, OF conjI [OF r o]] unfolding u p .
  show ?thesis
    using k kk s g by (simp only: simp_thms)
qed

end
